theory Spec2Isabelle
  imports Complex_Main "HOL-Library.Product_Lexorder" "HOL-Library.List_Lexorder"
    "HOL-Library.Multiset" "HOL-Library.Log_Nat"
begin

section \<open>Split criteria of a decision tree node (criteria.py)\<close>

text \<open>
  The module selects, for one node of a classification tree, the attribute to split on and
  the partition of its values. Counts are Python integers (\<open>int\<close>); criterion values are
  floats, read here as exact reals extended by the two infinities the source uses as
  initial values of a running best and by the not-a-number that a division of numpy
  integers by zero produces.
\<close>

subsection \<open>Values, errors and the Split record\<close>

datatype xreal = MInf | Fin real | PInf | NaN

text \<open>
  \<open>a > b\<close> and \<open>a < b\<close> on floats that may be infinite; a comparison with
  not-a-number is false.
\<close>

fun xgt :: "xreal \<Rightarrow> xreal \<Rightarrow> bool" where
  "xgt MInf _ = False"
| "xgt NaN _ = False"
| "xgt (Fin a) MInf = True"
| "xgt (Fin a) (Fin b) = (a > b)"
| "xgt (Fin a) PInf = False"
| "xgt (Fin a) NaN = False"
| "xgt PInf PInf = False"
| "xgt PInf NaN = False"
| "xgt PInf _ = True"

definition xlt :: "xreal \<Rightarrow> xreal \<Rightarrow> bool" where
  "xlt a b = xgt b a"

text \<open>
  The arithmetic of float64 on these values, for the places where the source computes with
  numpy scalars (a division by zero gives an infinity or not-a-number there, with a
  warning and no exception): \<open>a / b\<close> of two integers, \<open>+\<close>, \<open>-\<close>, \<open>*\<close> and \<open>abs\<close>.
\<close>

definition np_true_divide :: "int \<Rightarrow> int \<Rightarrow> xreal" where
  "np_true_divide a b =
     (if b \<noteq> 0 then Fin (real_of_int a / real_of_int b)
      else if a > 0 then PInf else if a < 0 then MInf else NaN)"

fun xplus :: "xreal \<Rightarrow> xreal \<Rightarrow> xreal" where
  "xplus NaN _ = NaN"
| "xplus _ NaN = NaN"
| "xplus (Fin a) (Fin b) = Fin (a + b)"
| "xplus PInf MInf = NaN"
| "xplus MInf PInf = NaN"
| "xplus PInf _ = PInf"
| "xplus MInf _ = MInf"
| "xplus (Fin a) b = b"

fun xuminus :: "xreal \<Rightarrow> xreal" where
  "xuminus NaN = NaN"
| "xuminus (Fin a) = Fin (- a)"
| "xuminus PInf = MInf"
| "xuminus MInf = PInf"

definition xminus :: "xreal \<Rightarrow> xreal \<Rightarrow> xreal" where
  "xminus a b = xplus a (xuminus b)"

fun xabs :: "xreal \<Rightarrow> xreal" where
  "xabs NaN = NaN"
| "xabs (Fin a) = Fin \<bar>a\<bar>"
| "xabs PInf = PInf"
| "xabs MInf = PInf"

fun xtimes :: "xreal \<Rightarrow> xreal \<Rightarrow> xreal" where
  "xtimes NaN _ = NaN"
| "xtimes _ NaN = NaN"
| "xtimes (Fin a) (Fin b) = Fin (a * b)"
| "xtimes (Fin a) PInf = (if a > 0 then PInf else if a < 0 then MInf else NaN)"
| "xtimes (Fin a) MInf = (if a > 0 then MInf else if a < 0 then PInf else NaN)"
| "xtimes PInf (Fin b) = (if b > 0 then PInf else if b < 0 then MInf else NaN)"
| "xtimes MInf (Fin b) = (if b > 0 then MInf else if b < 0 then PInf else NaN)"
| "xtimes PInf PInf = PInf"
| "xtimes MInf MInf = PInf"
| "xtimes PInf MInf = MInf"
| "xtimes MInf PInf = MInf"

datatype py_error = IndexError | ZeroDivisionError | LinAlgError | ValueError | OtherError

text \<open>
  A member of a side of a split: a nominal value (an index), a numeric value, or Python's
  \<open>None\<close> (the numeric scans start their best boundary values at \<open>None\<close>).
\<close>

datatype split_value = Nominal nat | Numeric real | NoneValue

record split =
  attrib_index :: "nat option"
  splits_values :: "split_value set list"
  criterion_value :: xreal

text \<open>\<open>Split.__new__.__defaults__ = (None, [], float('-inf'))\<close>\<close>

definition Split_default :: split where
  "Split_default = \<lparr>attrib_index = None, splits_values = [], criterion_value = MInf\<rparr>"

record contingency =
  contingency_table :: "int list list"
  values_num_samples :: "int list"

record tree_node =
  valid_nominal_attribute :: "bool list"
  valid_numeric_attribute :: "bool list"
  contingency_tables :: "contingency list"
  class_index_num_samples :: "int list"
  valid_samples_indices :: "nat list"
  dataset_samples :: "real list list"
  dataset_sample_class :: "nat list"
  dataset_num_classes :: nat

text \<open>\<open>xs[i]\<close> for a non-negative index: IndexError out of range.\<close>

definition py_nth :: "'a list \<Rightarrow> nat \<Rightarrow> py_error + 'a" where
  "py_nth xs i = (if i < length xs then Inr (xs ! i) else Inl IndexError)"

text \<open>\<open>max(splits, key=lambda split: split.criterion_value)\<close>: the first maximal element.\<close>

fun max_by_criterion :: "split \<Rightarrow> split list \<Rightarrow> split" where
  "max_by_criterion best [] = best"
| "max_by_criterion best (s # ss) =
     (if xgt (criterion_value s) (criterion_value best) then max_by_criterion s ss
      else max_by_criterion best ss)"

text \<open>\<open>min(splits, key=lambda split: split.criterion_value)\<close>: the first minimal element.\<close>

fun min_by_criterion :: "split \<Rightarrow> split list \<Rightarrow> split" where
  "min_by_criterion best [] = best"
| "min_by_criterion best (s # ss) =
     (if xlt (criterion_value s) (criterion_value best) then min_by_criterion s ss
      else min_by_criterion best ss)"

subsection \<open>Twoing: helpers\<close>

text \<open>
  \<open>_get_values_seen\<close>: the values with at least one sample. The source builds a Python set;
  the list here is the order in which the set is later iterated (ascending, as CPython
  iterates a set of small integers). The functions below that iterate it take the order as
  given, and the theorems about them hold for every order.
\<close>

definition get_values_seen :: "int list \<Rightarrow> nat list" where
  "get_values_seen ns = [v \<leftarrow> [0..<length ns]. ns ! v > 0]"

text \<open>\<open>itertools.combinations(xs, k)\<close>, in its lexicographic order of positions.\<close>

fun combinations :: "'a list \<Rightarrow> nat \<Rightarrow> 'a list list" where
  "combinations xs 0 = [[]]"
| "combinations [] (Suc k) = []"
| "combinations (x # xs) (Suc k) = map ((#) x) (combinations xs k) @ combinations xs (Suc k)"

text \<open>
  \<open>_generate_twoing\<close>: every left superclass of 1 up to n div 2 non-empty classes, with
  its complement among the non-empty classes; a pair with an empty side is skipped.
\<close>

definition generate_twoing :: "int list \<Rightarrow> (nat list \<times> nat list) list" where
  "generate_twoing cs =
     (let non_empty_classes = [c \<leftarrow> [0..<length cs]. cs ! c > 0];
          number_non_empty_classes = length non_empty_classes
      in [(left_classes, [c \<leftarrow> non_empty_classes. c \<notin> set left_classes]).
            left_classes \<leftarrow> concat (map (combinations non_empty_classes)
                                        [1..<number_non_empty_classes div 2 + 1]),
            left_classes \<noteq> [] \<and> [c \<leftarrow> non_empty_classes. c \<notin> set left_classes] \<noteq> []])"

text \<open>
  \<open>_get_twoing_contingency_table\<close>: the table collapsed to the two superclasses (rows of
  values without samples stay zero) and the two superclass totals.
\<close>

definition get_twoing_contingency_table ::
  "int list list \<Rightarrow> int list \<Rightarrow> nat list \<Rightarrow> nat list \<Rightarrow> int list list \<times> int list" where
  "get_twoing_contingency_table ct ns set_left_classes set_right_classes =
     (let row = (\<lambda>v. if ns ! v = 0 then [0, 0]
                     else [sum_list (map (\<lambda>c. ct ! v ! c) set_left_classes),
                           sum_list (map (\<lambda>c. ct ! v ! c) set_right_classes)]);
          twoing_contingency_table = map row [0..<length ns]
      in (twoing_contingency_table,
          [sum_list (map (\<lambda>r. r ! 0) twoing_contingency_table),
           sum_list (map (\<lambda>r. r ! 1) twoing_contingency_table)]))"

text \<open>\<open>_calculate_gini_index\<close>\<close>

definition calculate_gini_index :: "int \<Rightarrow> int list \<Rightarrow> real" where
  "calculate_gini_index side_num class_num_side =
     1 - sum_list (map (\<lambda>n. (real_of_int n / real_of_int side_num) ^ 2)
                       (filter (\<lambda>n. n > 0) class_num_side))"

text \<open>
  \<open>_get_twoing_value\<close>. The divisions are by \<open>num_left_samples\<close>, \<open>num_right_samples\<close> (for
  a class with samples) and by their sum. The function has two callers. The numeric scan
  passes Python lists and integers, and both numbers of samples are at least one there:
  \<open>twoing_value_of\<close>. The nominal branch passes numpy arrays and the sums of numpy
  integers, whose division by zero is an infinity or not-a-number and raises nothing:
  \<open>get_twoing_value\<close>, where only the quotient of the two Python zeros of a table
  without rows raises ZeroDivisionError.
\<close>

definition twoing_value_of :: "int list \<Rightarrow> int list \<Rightarrow> int \<Rightarrow> int \<Rightarrow> real" where
  "twoing_value_of class_num_left class_num_right num_left_samples num_right_samples =
     (let sum_dif = sum_list (map (\<lambda>(left_num, right_num).
                        if left_num + right_num = 0 then 0
                        else \<bar>real_of_int left_num / real_of_int num_left_samples
                              - real_of_int right_num / real_of_int num_right_samples\<bar>)
                      (zip class_num_left class_num_right));
          num_total_samples = num_left_samples + num_right_samples;
          frequency_left = real_of_int num_left_samples / real_of_int num_total_samples;
          frequency_right = real_of_int num_right_samples / real_of_int num_total_samples
      in (frequency_left * frequency_right / 4) * sum_dif ^ 2)"

definition get_twoing_value :: "int list \<Rightarrow> int list \<Rightarrow> int \<Rightarrow> int \<Rightarrow> xreal" where
  "get_twoing_value class_num_left class_num_right num_left_samples num_right_samples =
     (let sum_dif = fold (\<lambda>(left_num, right_num) sum_dif.
                        if left_num + right_num = 0 then sum_dif
                        else xplus sum_dif
                               (xabs (xminus (np_true_divide left_num num_left_samples)
                                             (np_true_divide right_num num_right_samples))))
                      (zip class_num_left class_num_right) (Fin 0);
          num_total_samples = num_left_samples + num_right_samples;
          frequency_left = np_true_divide num_left_samples num_total_samples;
          frequency_right = np_true_divide num_right_samples num_total_samples
      in xtimes (xtimes (xtimes frequency_left frequency_right) (Fin (1 / 4)))
                (xtimes sum_dif sum_dif))"

subsection \<open>Twoing: the two-class trick\<close>

text \<open>\<open>_get_non_empty_class_indices\<close>: the first two classes with samples.\<close>

fun get_non_empty_class_indices_from ::
  "nat \<Rightarrow> int list \<Rightarrow> nat option \<Rightarrow> nat option \<times> nat option" where
  "get_non_empty_class_indices_from i [] first = (first, None)"
| "get_non_empty_class_indices_from i (n # ns) first =
     (if n > 0 then
        (case first of
           None \<Rightarrow> get_non_empty_class_indices_from (Suc i) ns (Some i)
         | Some f \<Rightarrow> (first, Some i))
      else get_non_empty_class_indices_from (Suc i) ns first)"

definition get_non_empty_class_indices :: "int list \<Rightarrow> nat option \<times> nat option" where
  "get_non_empty_class_indices cs = get_non_empty_class_indices_from 0 cs None"

text \<open>
  \<open>_calculate_value_class_ratio\<close>: (value, number in the second class, ratio in the second
  class) for every value seen, sorted by the ratio (Python's sort is stable, as
  \<open>sort_key\<close> is).
\<close>

definition calculate_value_class_ratio ::
  "nat list \<Rightarrow> int list \<Rightarrow> int list list \<Rightarrow> nat \<Rightarrow> (nat \<times> int \<times> real) list" where
  "calculate_value_class_ratio values_seen ns ct second_class_index =
     sort_key (\<lambda>(v, num, ratio). ratio)
       (map (\<lambda>v. (v, ct ! v ! second_class_index,
                   real_of_int (ct ! v ! second_class_index) / real_of_int (ns ! v)))
            values_seen)"

text \<open>The inner \<open>_calculate_children_gini_index\<close> of the two-class trick.\<close>

definition trick_children_gini_index :: "int \<Rightarrow> int \<Rightarrow> int \<Rightarrow> int \<Rightarrow> int \<Rightarrow> int \<Rightarrow> real" where
  "trick_children_gini_index num_left_first num_left_second num_right_first num_right_second
       num_left_samples num_right_samples =
     (let left_split_gini_index =
            (if num_left_samples \<noteq> 0
             then 1 - (real_of_int num_left_first / real_of_int num_left_samples) ^ 2
                    - (real_of_int num_left_second / real_of_int num_left_samples) ^ 2
             else 1);
          right_split_gini_index =
            (if num_right_samples \<noteq> 0
             then 1 - (real_of_int num_right_first / real_of_int num_right_samples) ^ 2
                    - (real_of_int num_right_second / real_of_int num_right_samples) ^ 2
             else 1)
      in (real_of_int num_left_samples * left_split_gini_index
          + real_of_int num_right_samples * right_split_gini_index)
         / real_of_int (num_left_samples + num_right_samples))"

text \<open>The state of the sweep over the sorted values.\<close>

record sweep =
  best_split_total_gini_gain :: xreal
  best_last_left_index :: nat
  num_left_first :: int
  num_left_second :: int
  num_left_samples :: int
  num_right_first :: int
  num_right_second :: int
  num_right_samples :: int

definition sweep_step :: "real \<Rightarrow> int list \<Rightarrow> nat \<Rightarrow> (nat \<times> int \<times> real) \<Rightarrow> sweep \<Rightarrow> sweep" where
  "sweep_step original_gini ns last_left_index tup s =
     (let last_left_value = fst tup;
          last_left_num_second = fst (snd tup);
          num_samples_last_left_value = ns ! last_left_value;
          last_left_num_first = num_samples_last_left_value - last_left_num_second;
          nl = num_left_samples s + num_samples_last_left_value;
          nlf = num_left_first s + last_left_num_first;
          nls = num_left_second s + last_left_num_second;
          nr = num_right_samples s - num_samples_last_left_value;
          nrf = num_right_first s - last_left_num_first;
          nrs = num_right_second s - last_left_num_second;
          curr_children_gini_index = trick_children_gini_index nlf nls nrf nrs nl nr;
          curr_gini_gain = original_gini - curr_children_gini_index;
          better = xgt (Fin curr_gini_gain) (best_split_total_gini_gain s)
      in \<lparr>best_split_total_gini_gain =
            (if better then Fin curr_gini_gain else best_split_total_gini_gain s),
          best_last_left_index = (if better then last_left_index else best_last_left_index s),
          num_left_first = nlf, num_left_second = nls, num_left_samples = nl,
          num_right_first = nrf, num_right_second = nrs, num_right_samples = nr\<rparr>)"

text \<open>\<open>for last_left_index, tup in enumerate(value_number_ratio[:-1])\<close>, from index \<open>i\<close>.\<close>

fun sweep_loop ::
  "real \<Rightarrow> int list \<Rightarrow> nat \<Rightarrow> (nat \<times> int \<times> real) list \<Rightarrow> sweep \<Rightarrow> sweep" where
  "sweep_loop original_gini ns i [] s = s"
| "sweep_loop original_gini ns i (tup # tups) s =
     sweep_loop original_gini ns (Suc i) tups (sweep_step original_gini ns i tup s)"

text \<open>\<open>Twoing._two_class_trick\<close>: (gain, left values, right values).\<close>

definition two_class_trick ::
  "real \<Rightarrow> int list \<Rightarrow> nat list \<Rightarrow> int list \<Rightarrow> int list list \<Rightarrow> int
     \<Rightarrow> xreal \<times> nat set \<times> nat set" where
  "two_class_trick original_gini cs values_seen ns ct num_total_valid_samples =
     (case get_non_empty_class_indices cs of
        (Some first_non_empty_class, Some second_non_empty_class) \<Rightarrow>
          (let value_number_ratio =
                 calculate_value_class_ratio values_seen ns ct second_non_empty_class;
               s0 = \<lparr>best_split_total_gini_gain = MInf, best_last_left_index = 0,
                     num_left_first = 0, num_left_second = 0, num_left_samples = 0,
                     num_right_first = cs ! first_non_empty_class,
                     num_right_second = cs ! second_non_empty_class,
                     num_right_samples = num_total_valid_samples\<rparr>;
               s = sweep_loop original_gini ns 0 (butlast value_number_ratio) s0;
               set_left_values =
                 set (map fst (take (best_last_left_index s + 1) value_number_ratio));
               set_right_values = set values_seen - set_left_values
           in (best_split_total_gini_gain s, set_left_values, set_right_values))
      | _ \<Rightarrow> (MInf, {0}, {}))"

text \<open>
  The objective of the two-class trick, stated for any bipartition of the values: the Gini
  gain of the split into the values \<open>left\<close> and the values \<open>right\<close>, computed from the
  counts of the two sides with the trick's own children Gini index.
\<close>

definition partition_gini_gain ::
  "real \<Rightarrow> int list \<Rightarrow> int list list \<Rightarrow> nat \<Rightarrow> nat \<Rightarrow> nat set \<Rightarrow> nat set \<Rightarrow> real" where
  "partition_gini_gain original_gini ns ct first_class second_class left right =
     original_gini
     - trick_children_gini_index
         (\<Sum>v \<in> left. ct ! v ! first_class) (\<Sum>v \<in> left. ct ! v ! second_class)
         (\<Sum>v \<in> right. ct ! v ! first_class) (\<Sum>v \<in> right. ct ! v ! second_class)
         (\<Sum>v \<in> left. ns ! v) (\<Sum>v \<in> right. ns ! v)"

text \<open>
  The sweep read as a search over prefixes of the sorted list: \<open>prefix_gain\<close> is the gain
  the sweep computes when the first \<open>j\<close> tuples are on the left, and \<open>best_prefix\<close> keeps
  the first index of greatest gain among the first \<open>k\<close> iterations.
\<close>

definition prefix_gain ::
  "real \<Rightarrow> int list \<Rightarrow> int \<Rightarrow> int \<Rightarrow> int \<Rightarrow> (nat \<times> int \<times> real) list \<Rightarrow> nat \<Rightarrow> real" where
  "prefix_gain original_gini ns first_total second_total num_total tups j =
     (let left_samples = sum_list (map (\<lambda>t. ns ! fst t) (take j tups));
          left_second = sum_list (map (\<lambda>t. fst (snd t)) (take j tups));
          left_first = left_samples - left_second
      in original_gini
         - trick_children_gini_index left_first left_second
             (first_total - left_first) (second_total - left_second)
             left_samples (num_total - left_samples))"

definition best_prefix ::
  "real \<Rightarrow> int list \<Rightarrow> int \<Rightarrow> int \<Rightarrow> int \<Rightarrow> (nat \<times> int \<times> real) list \<Rightarrow> nat \<Rightarrow> xreal \<times> nat" where
  "best_prefix original_gini ns first_total second_total num_total tups k =
     fold (\<lambda>j b. if xgt (Fin (prefix_gain original_gini ns first_total second_total num_total
                                   tups (Suc j))) (fst b)
                   then (Fin (prefix_gain original_gini ns first_total second_total num_total
                                tups (Suc j)), j)
                   else b)
          [0..<k] (MInf, 0)"

text \<open>
  For two classes the weighted children Gini index is, up to constants of the node, the
  negative of \<open>b_left^2 / n_left + b_right^2 / n_right\<close>, where \<open>n\<close> counts the samples
  and \<open>b\<close> those of the second class: \<open>two_class_objective\<close>.
\<close>

definition two_class_objective ::
  "(nat \<Rightarrow> real) \<Rightarrow> (nat \<Rightarrow> real) \<Rightarrow> nat set \<Rightarrow> nat set \<Rightarrow> real" where
  "two_class_objective nn bb S T = (sum bb S)^2 / sum nn S + (sum bb T)^2 / sum nn T"

subsection \<open>Twoing: the scan of a numeric attribute\<close>

text \<open>\<open>[0] * num_classes\<close>, then \<open>+= 1\<close> at the class of every sample.\<close>

definition count_classes :: "nat \<Rightarrow> (real \<times> nat) list \<Rightarrow> int list" where
  "count_classes num_classes ys =
     fold (\<lambda>p cnt. cnt[snd p := cnt ! snd p + 1]) ys (replicate num_classes 0)"

record scan =
  best_twoing :: xreal
  best_last_left_value :: "real option"
  best_first_right_value :: "real option"
  last_left_value :: real
  scan_num_left_samples :: int
  scan_num_right_samples :: int
  class_num_left :: "int list"
  class_num_right :: "int list"

text \<open>One iteration of \<open>for first_right_index in range(1, len(...))\<close>.\<close>

definition numeric_step :: "(real \<times> nat) \<Rightarrow> scan \<Rightarrow> scan" where
  "numeric_step p s =
     (let first_right_value = fst p;
          first_right_class = snd p;
          s1 = (if first_right_value \<noteq> last_left_value s then
                  (let twoing_value = twoing_value_of (class_num_left s) (class_num_right s)
                         (scan_num_left_samples s) (scan_num_right_samples s);
                       s' = (if xgt (Fin twoing_value) (best_twoing s)
                             then s\<lparr>best_twoing := Fin twoing_value,
                                    best_last_left_value := Some (last_left_value s),
                                    best_first_right_value := Some first_right_value\<rparr>
                             else s)
                   in s'\<lparr>last_left_value := first_right_value\<rparr>)
                else s)
      in s1\<lparr>scan_num_left_samples := scan_num_left_samples s1 + 1,
            scan_num_right_samples := scan_num_right_samples s1 - 1,
            class_num_left := (class_num_left s1)
               [first_right_class := class_num_left s1 ! first_right_class + 1],
            class_num_right := (class_num_right s1)
               [first_right_class := class_num_right s1 ! first_right_class - 1]\<rparr>)"

fun numeric_loop :: "(real \<times> nat) list \<Rightarrow> scan \<Rightarrow> scan" where
  "numeric_loop [] s = s"
| "numeric_loop (p # ps) s = numeric_loop ps (numeric_step p s)"

text \<open>
  \<open>Twoing._twoing_for_numeric\<close>. Reading \<open>sorted_values_and_classes[0]\<close> of an empty list
  and indexing the class counters with a class outside \<open>range(num_classes)\<close> raise
  IndexError.
\<close>

definition twoing_for_numeric ::
  "(real \<times> nat) list \<Rightarrow> nat \<Rightarrow> py_error + (xreal \<times> real option \<times> real option)" where
  "twoing_for_numeric sorted_values_and_classes num_classes =
     (case sorted_values_and_classes of
        [] \<Rightarrow> Inl IndexError
      | p # ps \<Rightarrow>
          if \<exists>q \<in> set (p # ps). snd q \<ge> num_classes then Inl IndexError
          else
            (let s0 = \<lparr>best_twoing = MInf, best_last_left_value = None,
                       best_first_right_value = None, last_left_value = fst p,
                       scan_num_left_samples = 1,
                       scan_num_right_samples = int (length (p # ps)) - 1,
                       class_num_left = (replicate num_classes 0)[snd p := 1],
                       class_num_right = count_classes num_classes ps\<rparr>;
                 s = numeric_loop ps s0
             in Inr (best_twoing s, best_last_left_value s, best_first_right_value s)))"



subsection \<open>Twoing: select_best_attribute_and_split\<close>

fun map_err :: "('a \<Rightarrow> py_error + 'b) \<Rightarrow> 'a list \<Rightarrow> py_error + 'b list" where
  "map_err f [] = Inr []"
| "map_err f (x # xs) =
     (case f x of
        Inl e \<Rightarrow> Inl e
      | Inr y \<Rightarrow> (case map_err f xs of Inl e \<Rightarrow> Inl e | Inr ys \<Rightarrow> Inr (y # ys)))"

text \<open>\<open>_get_numeric_values_seen\<close>\<close>

definition get_numeric_values_seen ::
  "nat list \<Rightarrow> real list list \<Rightarrow> nat list \<Rightarrow> nat \<Rightarrow> py_error + (real \<times> nat) list" where
  "get_numeric_values_seen indices sample sample_class attrib =
     map_err (\<lambda>sample_index.
        case py_nth sample sample_index of
          Inl e \<Rightarrow> Inl e
        | Inr row \<Rightarrow>
            (case py_nth row attrib of
               Inl e \<Rightarrow> Inl e
             | Inr sample_value \<Rightarrow>
                 (case py_nth sample_class sample_index of
                    Inl e \<Rightarrow> Inl e
                  | Inr c \<Rightarrow> Inr (sample_value, c)))) indices"

definition numeric_split_value :: "real option \<Rightarrow> split_value" where
  "numeric_split_value v = (case v of None \<Rightarrow> NoneValue | Some x \<Rightarrow> Numeric x)"

text \<open>The search over the superclass partitions, for one nominal attribute.\<close>

definition twoing_best_partition ::
  "int list list \<Rightarrow> int list \<Rightarrow> int list \<Rightarrow> int \<Rightarrow> xreal \<times> nat set \<times> nat set" where
  "twoing_best_partition ct ns cs num_total =
     fold (\<lambda>(set_left_classes, set_right_classes) (best_total_gini_gain, best_left, best_right).
             (let (twoing_contingency_table, superclass_index_num_samples) =
                    get_twoing_contingency_table ct ns set_left_classes set_right_classes;
                  original_gini = calculate_gini_index num_total superclass_index_num_samples;
                  (curr_gini_gain, left_values, right_values) =
                    two_class_trick original_gini superclass_index_num_samples
                      (get_values_seen ns) ns twoing_contingency_table num_total
              in if xgt curr_gini_gain best_total_gini_gain
                 then (curr_gini_gain, left_values, right_values)
                 else (best_total_gini_gain, best_left, best_right)))
          (generate_twoing cs) (MInf, {}, {})"

text \<open>The class counts and the number of samples of the values of one side.\<close>

definition side_class_num :: "int list list \<Rightarrow> nat list \<Rightarrow> int list" where
  "side_class_num ct vs =
     map (\<lambda>c. sum_list (map (\<lambda>v. ct ! v ! c) vs))
         [0..<(case ct of [] \<Rightarrow> 0 | r # _ \<Rightarrow> length r)]"

text \<open>
  The nominal branch of the loop (lines 79 to 130). The class counts of the two sides are
  numpy arrays and the numbers of samples are sums of numpy integers, so a side without
  samples gives a Split whose criterion value is not-a-number or an infinity. In a table
  without rows both numbers stay the Python integer 0, and their quotient raises.
\<close>

definition twoing_nominal_split :: "tree_node \<Rightarrow> nat \<Rightarrow> py_error + split" where
  "twoing_nominal_split node attrib =
     (case py_nth (contingency_tables node) attrib of
        Inl e \<Rightarrow> Inl e
      | Inr tbl \<Rightarrow>
          (let ct = contingency_table tbl;
               ns = values_num_samples tbl;
               (best_total_gini_gain, best_left_values, best_right_values) =
                 twoing_best_partition ct ns (class_index_num_samples node)
                   (int (length (valid_samples_indices node)));
               left_rows = [v \<leftarrow> [0..<length ct]. v \<in> best_left_values];
               right_rows = [v \<leftarrow> [0..<length ct]. v \<notin> best_left_values]
           in if length ct = 0 then Inl ZeroDivisionError
              else
                Inr \<lparr>attrib_index = Some attrib,
                     splits_values = [Nominal ` best_left_values, Nominal ` best_right_values],
                     criterion_value =
                       get_twoing_value (side_class_num ct left_rows)
                         (side_class_num ct right_rows)
                         (sum_list (map (\<lambda>v. ns ! v) left_rows))
                         (sum_list (map (\<lambda>v. ns ! v) right_rows))\<rparr>))"

definition twoing_numeric_split :: "tree_node \<Rightarrow> nat \<Rightarrow> py_error + split" where
  "twoing_numeric_split node attrib =
     (case get_numeric_values_seen (valid_samples_indices node) (dataset_samples node)
             (dataset_sample_class node) attrib of
        Inl e \<Rightarrow> Inl e
      | Inr values_and_classes \<Rightarrow>
          (case twoing_for_numeric (sort values_and_classes) (dataset_num_classes node) of
             Inl e \<Rightarrow> Inl e
           | Inr (best, last_left, first_right) \<Rightarrow>
               Inr \<lparr>attrib_index = Some attrib,
                    splits_values = [{numeric_split_value last_left},
                                     {numeric_split_value first_right}],
                    criterion_value = best\<rparr>))"

text \<open>
  The loop over \<open>enumerate(zip(valid_nominal_attribute, valid_numeric_attribute))\<close>,
  building \<open>best_splits_per_attrib\<close>; an exception of one attribute ends the call.
\<close>

fun twoing_splits_per_attrib ::
  "tree_node \<Rightarrow> nat \<Rightarrow> (bool \<times> bool) list \<Rightarrow> py_error + split list" where
  "twoing_splits_per_attrib node attrib [] = Inr []"
| "twoing_splits_per_attrib node attrib ((is_nominal, is_numeric) # rest) =
     (if is_nominal then
        (case twoing_nominal_split node attrib of
           Inl e \<Rightarrow> Inl e
         | Inr s \<Rightarrow>
             (case twoing_splits_per_attrib node (Suc attrib) rest of
                Inl e \<Rightarrow> Inl e
              | Inr ss \<Rightarrow> Inr (s # ss)))
      else if is_numeric then
        (case twoing_numeric_split node attrib of
           Inl e \<Rightarrow> Inl e
         | Inr s \<Rightarrow>
             (case twoing_splits_per_attrib node (Suc attrib) rest of
                Inl e \<Rightarrow> Inl e
              | Inr ss \<Rightarrow> Inr (s # ss)))
      else twoing_splits_per_attrib node (Suc attrib) rest)"

definition Twoing_select_best_attribute_and_split :: "tree_node \<Rightarrow> py_error + split" where
  "Twoing_select_best_attribute_and_split node =
     (case twoing_splits_per_attrib node 0
             (zip (valid_nominal_attribute node) (valid_numeric_attribute node)) of
        Inl e \<Rightarrow> Inl e
      | Inr [] \<Rightarrow> Inr Split_default
      | Inr (s # ss) \<Rightarrow> Inr (max_by_criterion s ss))"

subsection \<open>Conditional Inference Tree Twoing: the test statistic\<close>

type_synonym matrix = "real list list"

text \<open>
  \<open>curr_rcond\<close>, the tolerance of the retry loop, is a Python float, and the number of
  rounds of the loop depends on how its products round. A positive binary64 number is kept
  as a significand and an exponent, the number \<open>m * 2^e\<close>; a normal number has
  \<open>2^52 \<le> m < 2^53\<close>. The exponents of the loop stay far from the ends of the range of
  binary64, so overflow and subnormal numbers are left out.
\<close>

datatype float64 = Float64 (significand: int) (exponent: int)

definition float64_value :: "float64 \<Rightarrow> real" where
  "float64_value x = real_of_int (significand x) * 2 powi exponent x"

text \<open>
  The positive number \<open>n * 2^e\<close> rounded to 53 significant bits, to nearest, ties to
  even.
\<close>

definition float64_round :: "int \<Rightarrow> int \<Rightarrow> float64" where
  "float64_round n e =
     (let k = bitlen n - 53
      in if k \<le> 0 then Float64 (n * 2 ^ nat (- k)) (e + k)
         else
           (let q = n div 2 ^ nat k;
                r = n mod 2 ^ nat k;
                half = 2 ^ nat (k - 1);
                q' = (if r > half \<or> (r = half \<and> odd q) then q + 1 else q)
            in if q' = 2 ^ 53 then Float64 (2 ^ 52) (e + k + 1) else Float64 q' (e + k)))"

text \<open>\<open>x * y\<close> and \<open>x > y\<close> of binary64.\<close>

definition float64_times :: "float64 \<Rightarrow> float64 \<Rightarrow> float64" where
  "float64_times x y =
     float64_round (significand x * significand y) (exponent x + exponent y)"

definition float64_greater :: "float64 \<Rightarrow> float64 \<Rightarrow> bool" where
  "float64_greater x y =
     (let d = min (exponent x) (exponent y)
      in significand x * 2 ^ nat (exponent x - d) > significand y * 2 ^ nat (exponent y - d))"

text \<open>
  The literals \<open>1e-15\<close>, \<open>10.\<close> and \<open>1e-6\<close>: the binary64 numbers nearest to the
  decimals (\<open>0x1.203af9ee75616p-50\<close>, \<open>0x1.4p+3\<close> and \<open>0x1.0c6f7a0b5ed8dp-20\<close>).
\<close>

definition float64_1e_15 :: float64 where
  "float64_1e_15 = Float64 5070602400912918 (- 102)"

definition float64_10 :: float64 where
  "float64_10 = Float64 5629499534213120 (- 49)"

definition float64_1e_6 :: float64 where
  "float64_1e_6 = Float64 4722366482869645 (- 72)"

text \<open>\<open>curr_rcond\<close> after \<open>k\<close> executions of \<open>curr_rcond *= 10.\<close>\<close>

fun rcond_ladder :: "nat \<Rightarrow> float64" where
  "rcond_ladder 0 = float64_1e_15"
| "rcond_ladder (Suc k) = float64_times (rcond_ladder k) float64_10"

text \<open>
  The linear algebra and statistics libraries the module calls, taken as parameters:
  \<open>np.linalg.pinv\<close> followed by \<open>np.linalg.matrix_rank\<close> (one \<open>try\<close> block),
  \<open>scipy.linalg.pinv(..., return_rank=True)\<close>, and \<open>scipy.stats.chi2.cdf\<close>. A call
  either returns or raises. A pseudo-inverse routine is given the number of calls made to
  it before in this run of \<open>_calculate_c_quad_cdf\<close> (it may answer differently when asked
  again), the matrix, and the tolerance \<open>rcond\<close> of the call, \<open>None\<close> when the call
  leaves it to the default of the library.
\<close>

record linalg =
  numpy_pinv_and_rank :: "nat \<Rightarrow> matrix \<Rightarrow> float64 option \<Rightarrow> py_error + matrix \<times> nat"
  scipy_pinv :: "nat \<Rightarrow> matrix \<Rightarrow> float64 option \<Rightarrow> py_error + matrix \<times> nat"
  chi2_cdf :: "real \<Rightarrow> nat \<Rightarrow> real"

definition BIG_CONTINGENCY_TABLE_THRESHOLD :: int where
  "BIG_CONTINGENCY_TABLE_THRESHOLD = 200"

text \<open>\<open>_is_big_contingency_table\<close>\<close>

definition is_big_contingency_table :: "int list \<Rightarrow> int list \<Rightarrow> bool" where
  "is_big_contingency_table ns cs =
     (let num_values_seen = int (length (filter (\<lambda>n. n > 0) ns));
          num_classes_seen = int (length (filter (\<lambda>n. n > 0) cs))
      in num_values_seen * num_classes_seen > BIG_CONTINGENCY_TABLE_THRESHOLD)"

text \<open>The inner helpers of \<open>_calculate_c_quad_cdf\<close>.\<close>

definition calculate_expected_value_h :: "int list \<Rightarrow> int \<Rightarrow> real list" where
  "calculate_expected_value_h cs num_valid_samples =
     map (\<lambda>c. (1 / real_of_int num_valid_samples) * real_of_int c) cs"

definition calculate_covariance_h :: "real list \<Rightarrow> int list \<Rightarrow> int \<Rightarrow> matrix" where
  "calculate_covariance_h expected_value_h cs num_valid_samples =
     (let num_classes = length cs;
          diff = (\<lambda>k a. (if a = k then 1 else 0) - expected_value_h ! a)
      in map (\<lambda>a. map (\<lambda>b.
               sum_list (map (\<lambda>k. if cs ! k \<noteq> 0
                                    then real_of_int (cs ! k) * (diff k a * diff k b) else 0)
                             [0..<num_classes])
               / real_of_int num_valid_samples) [0..<num_classes]) [0..<num_classes])"

text \<open>\<open>np.outer(values_num_samples, expected_value_h).flatten(order='F')\<close>: column-major.\<close>

definition calculate_mu_j :: "int list \<Rightarrow> real list \<Rightarrow> real list" where
  "calculate_mu_j ns expected_value_h =
     concat (map (\<lambda>h. map (\<lambda>n. real_of_int n * h) ns) expected_value_h)"

text \<open>
  \<open>_calculate_sigma_j\<close>: row \<open>a * V + v\<close>, column \<open>b * V + w\<close> of the two Kronecker
  products.
\<close>

definition calculate_sigma_j :: "int list \<Rightarrow> int \<Rightarrow> matrix \<Rightarrow> matrix" where
  "calculate_sigma_j ns num_valid_samples covariance_h =
     (let num_classes = length covariance_h;
          num_values = length ns;
          n = real_of_int num_valid_samples
      in concat (map (\<lambda>a. map (\<lambda>v.
           concat (map (\<lambda>b. map (\<lambda>w.
               (n / (n - 1)) * (covariance_h ! a ! b
                                * (if v = w then real_of_int (ns ! v) else 0))
               - (1 / (n - 1)) * (covariance_h ! a ! b
                                  * (real_of_int (ns ! v) * real_of_int (ns ! w))))
             [0..<num_values]) [0..<num_classes]))
         [0..<num_values]) [0..<num_classes]))"

definition flatten_F :: "int list list \<Rightarrow> real list" where
  "flatten_F ct =
     concat (map (\<lambda>c. map (\<lambda>row. real_of_int (row ! c)) ct)
                 [0..<(case ct of [] \<Rightarrow> 0 | r # _ \<Rightarrow> length r)])"

definition quadratic_form :: "real list \<Rightarrow> matrix \<Rightarrow> real" where
  "quadratic_form d m =
     sum_list (map (\<lambda>i. d ! i * sum_list (map (\<lambda>j. m ! i ! j * d ! j) [0..<length d]))
                   [0..<length d])"

definition svd_warning :: string where
  "svd_warning = ''Warning: attribute has sigma_j matrix that is not decomposable in SVD.''"

text \<open>
  The \<open>while True\<close> loop of \<open>_calculate_c_quad_cdf\<close> (lines 1619 to 1637), from its
  round number \<open>attempt\<close>. The first \<open>try\<close> catches \<open>LinAlgError\<close> only, so another
  exception of numpy leaves the function; the second catches everything, multiplies
  \<open>curr_rcond\<close> by ten and gives up above \<open>1e-6\<close>. Both calls are written
  \<open>np.linalg.pinv(sigma_j)\<close> and \<open>scipy.linalg.pinv(sigma_j, return_rank=True)\<close>:
  \<open>curr_rcond\<close> is not among their arguments. The result is the pseudo-inverse and rank,
  or \<open>None\<close> with the printed warning when the loop gave up. The loop has no bound of its
  own: not returning is the value \<open>None\<close> of the outer option.
\<close>

partial_function (option) pinv_retry ::
  "linalg \<Rightarrow> matrix \<Rightarrow> nat \<Rightarrow> float64
     \<Rightarrow> (py_error + (matrix \<times> nat) option \<times> string list) option" where
  "pinv_retry la sigma_j attempt curr_rcond =
     (case numpy_pinv_and_rank la attempt sigma_j None of
        Inr pr \<Rightarrow> Some (Inr (Some pr, []))
      | Inl e \<Rightarrow>
          if e \<noteq> LinAlgError then Some (Inl e)
          else
            (case scipy_pinv la attempt sigma_j None of
               Inr pr \<Rightarrow> Some (Inr (Some pr, []))
             | Inl _ \<Rightarrow>
                 if float64_greater (float64_times curr_rcond float64_10) float64_1e_6
                 then Some (Inr (None, [svd_warning]))
                 else pinv_retry la sigma_j (Suc attempt)
                        (float64_times curr_rcond float64_10)))"


text \<open>
  \<open>_calculate_c_quad_cdf\<close>: the value and the lines printed. \<open>1./num_valid_samples\<close>
  and the divisions by \<open>num_valid_samples - 1\<close> raise ZeroDivisionError on a zero divisor.
\<close>

definition calculate_c_quad_cdf ::
  "linalg \<Rightarrow> int list list \<Rightarrow> int list \<Rightarrow> int list \<Rightarrow> int
     \<Rightarrow> (py_error + xreal \<times> string list) option" where
  "calculate_c_quad_cdf la ct ns cs num_valid_samples =
     (if num_valid_samples = 0 \<or> num_valid_samples = 1 then Some (Inl ZeroDivisionError)
      else
        (let expected_value_h = calculate_expected_value_h cs num_valid_samples;
             covariance_h = calculate_covariance_h expected_value_h cs num_valid_samples;
             mu_j = calculate_mu_j ns expected_value_h;
             sigma_j = calculate_sigma_j ns num_valid_samples covariance_h;
             temp_diff = map (\<lambda>(x, m). x - m) (zip (flatten_F ct) mu_j)
         in case pinv_retry la sigma_j 0 float64_1e_15 of
              None \<Rightarrow> None
            | Some (Inl e) \<Rightarrow> Some (Inl e)
            | Some (Inr (None, printed)) \<Rightarrow> Some (Inr (MInf, printed))
            | Some (Inr (Some (sigma_j_pinv, sigma_j_rank), printed)) \<Rightarrow>
                Some (Inr (Fin (chi2_cdf la (quadratic_form temp_diff sigma_j_pinv)
                                   sigma_j_rank), printed))))"

text \<open>
  \<open>_get_chi_square_test_p_value\<close>: Pearson's chi-square test. No function of the module
  calls it.
\<close>

definition get_chi_square_test_p_value ::
  "linalg \<Rightarrow> int list list \<Rightarrow> int list \<Rightarrow> int list \<Rightarrow> real" where
  "get_chi_square_test_p_value la ct ns cs =
     (let classes_seen = [c \<leftarrow> [0..<length cs]. cs ! c > 0];
          num_classes = length classes_seen
      in if num_classes = 1 then 0
         else
           (let num_values = length (filter (\<lambda>n. n > 0) ns);
                num_samples = sum_list ns;
                curr_chi_square_value =
                  sum_list (map (\<lambda>v. if ns ! v = 0 then 0
                       else sum_list (map (\<lambda>c.
                              (let expected_value_class =
                                     real_of_int (ns ! v * cs ! c) / real_of_int num_samples;
                                   diff = real_of_int (ct ! v ! c) - expected_value_class
                               in diff * (diff / expected_value_class))) classes_seen))
                     [0..<length ns])
            in 1 - chi2_cdf la curr_chi_square_value ((num_classes - 1) * (num_values - 1))))"

subsection \<open>Conditional Inference Tree Twoing: select_best_attribute_and_split\<close>

text \<open>The first loop: \<open>use_chi2\<close>, decided once for the node, with its \<open>break\<close>.\<close>

fun cit_use_chi2 :: "tree_node \<Rightarrow> nat \<Rightarrow> bool list \<Rightarrow> py_error + bool" where
  "cit_use_chi2 node attrib [] = Inr False"
| "cit_use_chi2 node attrib (is_valid_attrib # rest) =
     (if is_valid_attrib then
        (case py_nth (contingency_tables node) attrib of
           Inl e \<Rightarrow> Inl e
         | Inr tbl \<Rightarrow>
             if is_big_contingency_table (values_num_samples tbl) (class_index_num_samples node)
             then Inr True
             else cit_use_chi2 node (Suc attrib) rest)
      else cit_use_chi2 node (Suc attrib) rest)"

text \<open>
  The loop of the branch \<open>if use_chi2\<close> (lines 1490 to 1500): every valid attribute is
  scored with \<open>cls._calculate_c_quad_cdf\<close>.
\<close>

fun cit_rank_chi2 ::
  "linalg \<Rightarrow> tree_node \<Rightarrow> nat \<Rightarrow> bool list \<Rightarrow> (py_error + split list \<times> string list) option" where
  "cit_rank_chi2 la node attrib [] = Some (Inr ([], []))"
| "cit_rank_chi2 la node attrib (is_valid_attrib # rest) =
     (if is_valid_attrib then
        (case py_nth (contingency_tables node) attrib of
           Inl e \<Rightarrow> Some (Inl e)
         | Inr tbl \<Rightarrow>
             (case calculate_c_quad_cdf la (contingency_table tbl) (values_num_samples tbl)
                     (class_index_num_samples node)
                     (int (length (valid_samples_indices node))) of
                None \<Rightarrow> None
              | Some (Inl e) \<Rightarrow> Some (Inl e)
              | Some (Inr (curr_chi2_cdf, printed)) \<Rightarrow>
                  (case cit_rank_chi2 la node (Suc attrib) rest of
                     None \<Rightarrow> None
                   | Some (Inl e) \<Rightarrow> Some (Inl e)
                   | Some (Inr (ss, printed')) \<Rightarrow>
                       Some (Inr (\<lparr>attrib_index = Some attrib, splits_values = [],
                                    criterion_value = curr_chi2_cdf\<rparr> # ss,
                                  printed @ printed')))))
      else cit_rank_chi2 la node (Suc attrib) rest)"

text \<open>The loop of the branch \<open>else\<close> (lines 1502 to 1512).\<close>

fun cit_rank_c_quad ::
  "linalg \<Rightarrow> tree_node \<Rightarrow> nat \<Rightarrow> bool list \<Rightarrow> (py_error + split list \<times> string list) option" where
  "cit_rank_c_quad la node attrib [] = Some (Inr ([], []))"
| "cit_rank_c_quad la node attrib (is_valid_attrib # rest) =
     (if is_valid_attrib then
        (case py_nth (contingency_tables node) attrib of
           Inl e \<Rightarrow> Some (Inl e)
         | Inr tbl \<Rightarrow>
             (case calculate_c_quad_cdf la (contingency_table tbl) (values_num_samples tbl)
                     (class_index_num_samples node)
                     (int (length (valid_samples_indices node))) of
                None \<Rightarrow> None
              | Some (Inl e) \<Rightarrow> Some (Inl e)
              | Some (Inr (curr_c_quad_cdf, printed)) \<Rightarrow>
                  (case cit_rank_c_quad la node (Suc attrib) rest of
                     None \<Rightarrow> None
                   | Some (Inl e) \<Rightarrow> Some (Inl e)
                   | Some (Inr (ss, printed')) \<Rightarrow>
                       Some (Inr (\<lparr>attrib_index = Some attrib, splits_values = [],
                                    criterion_value = curr_c_quad_cdf\<rparr> # ss,
                                  printed @ printed')))))
      else cit_rank_c_quad la node (Suc attrib) rest)"

text \<open>The ranking pass of the node: \<open>best_splits_per_attrib\<close> and the lines printed.\<close>

definition cit_best_splits_per_attrib ::
  "linalg \<Rightarrow> tree_node \<Rightarrow> (py_error + split list \<times> string list) option" where
  "cit_best_splits_per_attrib la node =
     (case cit_use_chi2 node 0 (valid_nominal_attribute node) of
        Inl e \<Rightarrow> Some (Inl e)
      | Inr use_chi2 \<Rightarrow>
          if use_chi2 then cit_rank_chi2 la node 0 (valid_nominal_attribute node)
          else cit_rank_c_quad la node 0 (valid_nominal_attribute node))"

definition CIT_Twoing_select_best_attribute_and_split ::
  "linalg \<Rightarrow> tree_node \<Rightarrow> (py_error + split \<times> string list) option" where
  "CIT_Twoing_select_best_attribute_and_split la node =
     (case cit_best_splits_per_attrib la node of
        None \<Rightarrow> None
      | Some (Inl e) \<Rightarrow> Some (Inl e)
      | Some (Inr ([], printed)) \<Rightarrow> Some (Inr (Split_default, printed))
      | Some (Inr (s # ss, printed)) \<Rightarrow>
          (let best_split = max_by_criterion s ss
           in case py_nth (contingency_tables node) (the (attrib_index best_split)) of
                Inl e \<Rightarrow> Some (Inl e)
              | Inr tbl \<Rightarrow>
                  (let (best_total_gini_gain, best_left_values, best_right_values) =
                         twoing_best_partition (contingency_table tbl) (values_num_samples tbl)
                           (class_index_num_samples node)
                           (int (length (valid_samples_indices node)))
                   in Some (Inr (\<lparr>attrib_index = attrib_index best_split,
                                   splits_values = [Nominal ` best_left_values,
                                                    Nominal ` best_right_values],
                                   criterion_value = criterion_value best_split\<rparr>,
                                 printed)))))"

subsection \<open>Max-Cut criteria: weights, rounding and local search\<close>

text \<open>\<open>EPSILON = 0.000001\<close>\<close>

definition EPSILON :: real where
  "EPSILON = 1 / 10 ^ 6"

text \<open>
  \<open>_remove_empty_values\<close>: (new_to_orig_value_int, new table, new numbers of samples).
  The two new arrays are numpy arrays of \<open>dtype=int\<close>, 64-bit integers, as the arrays of
  the node are; the arithmetic on their entries wraps around.
\<close>

definition remove_empty_values ::
  "int list list \<Rightarrow> int list \<Rightarrow> nat list \<times> int list list \<times> int list" where
  "remove_empty_values ct ns =
     (let new_to_orig_value_int = [v \<leftarrow> [0..<length ns]. ns ! v > 0]
      in (new_to_orig_value_int,
          map (\<lambda>v. ct ! v) new_to_orig_value_int,
          map (\<lambda>v. ns ! v) new_to_orig_value_int))"

text \<open>The value of a 64-bit signed integer operation: the result wrapped into range.\<close>

definition int64 :: "int \<Rightarrow> int" where
  "int64 x = (x + 2 ^ 63) mod 2 ^ 64 - 2 ^ 63"

text \<open>
  \<open>_init_values_weights\<close> of the Squared Gini criteria (GW and LS): the weight of the
  edge between values \<open>i\<close> and \<open>j\<close>; the diagonal stays zero. The difference and the
  product are computed on 64-bit integers, the sum over the classes on floats.
\<close>

definition init_values_weights :: "int list list \<Rightarrow> int list \<Rightarrow> matrix" where
  "init_values_weights new_contingency_table new_values_num_seen =
     (let n = length new_values_num_seen;
          num_classes = (case new_contingency_table of [] \<Rightarrow> 0 | r # _ \<Rightarrow> length r)
      in map (\<lambda>i. map (\<lambda>j.
               if i = j then 0
               else sum_list (map (\<lambda>c.
                        (let num_elems_value_j_diff_class =
                               int64 (new_values_num_seen ! j - new_contingency_table ! j ! c)
                         in real_of_int (int64 (new_contingency_table ! i ! c
                                                * num_elems_value_j_diff_class))))
                      [0..<num_classes]))
             [0..<n]) [0..<n])"

text \<open>
  \<open>_init_values_weights\<close> of the Chi Square criteria. The sums and products of the
  counts are 64-bit integers, the quotients floats. A division by a zero divisor gives an
  infinity or not-a-number, which every later operation on the entry keeps away from the
  finite numbers: such an entry is \<open>None\<close>, a finite one \<open>Some\<close> of its value.
\<close>

definition chi_square_edge_weight :: "int \<Rightarrow> int \<Rightarrow> int \<Rightarrow> int \<Rightarrow> real option" where
  "chi_square_edge_weight num_samples_i num_samples_j count_i count_j =
     (let num_samples_both_values = int64 (num_samples_i + num_samples_j);
          num_samples_both_values_curr_class = int64 (count_i + count_j)
      in if num_samples_both_values_curr_class = 0 then Some 0
         else
           (let numerator_i = int64 (num_samples_i * num_samples_both_values_curr_class);
                numerator_j = int64 (num_samples_j * num_samples_both_values_curr_class)
            in if num_samples_both_values = 0 \<or> numerator_i = 0 \<or> numerator_j = 0 then None
               else
                 (let expected_value_index_i_class =
                        real_of_int numerator_i / real_of_int num_samples_both_values;
                      diff_index_i = real_of_int count_i - expected_value_index_i_class;
                      expected_value_index_j_class =
                        real_of_int numerator_j / real_of_int num_samples_both_values;
                      diff_index_j = real_of_int count_j - expected_value_index_j_class
                  in Some (diff_index_i * (diff_index_i / expected_value_index_i_class)
                           + diff_index_j * (diff_index_j / expected_value_index_j_class)))))"

definition option_plus :: "real option \<Rightarrow> real option \<Rightarrow> real option" where
  "option_plus a b = (case (a, b) of (Some x, Some y) \<Rightarrow> Some (x + y) | _ \<Rightarrow> None)"

definition init_values_weights_chi_square ::
  "int list list \<Rightarrow> int list \<Rightarrow> real option list list" where
  "init_values_weights_chi_square new_contingency_table new_values_num_seen =
     (let n = length new_values_num_seen;
          num_classes = (case new_contingency_table of [] \<Rightarrow> 0 | r # _ \<Rightarrow> length r);
          edge = (\<lambda>i j.
                   (let total = fold (\<lambda>c w. option_plus w
                                        (chi_square_edge_weight (new_values_num_seen ! i)
                                           (new_values_num_seen ! j)
                                           (new_contingency_table ! i ! c)
                                           (new_contingency_table ! j ! c)))
                                     [0..<num_classes] (Some 0)
                    in if n > 2 then map_option (\<lambda>w. w / (real n - 1)) total else total))
      in map (\<lambda>i. map (\<lambda>j. if i = j then Some 0 else if i < j then edge i j else edge j i)
                      [0..<n]) [0..<n])"

text \<open>
  \<open>_generate_random_partition\<close>, the same text in the four GW classes. The draw
  \<open>np.random.randn(frac_split_cholesky.shape[1])\<close> is the parameter \<open>random_vector\<close>, one
  number for every column; a value goes left when the projection of its column is
  positive. \<open>np.dot\<close> of the draw and a column raises ValueError when the matrix has
  columns and is not square.
\<close>

definition column_projection :: "matrix \<Rightarrow> real list \<Rightarrow> nat \<Rightarrow> real" where
  "column_projection frac_split_cholesky random_vector column_index =
     sum_list (map (\<lambda>k. random_vector ! k * frac_split_cholesky ! k ! column_index)
                   [0..<length frac_split_cholesky])"

definition generate_random_partition ::
  "matrix \<Rightarrow> real list \<Rightarrow> py_error + nat set \<times> nat set" where
  "generate_random_partition frac_split_cholesky random_vector =
     (let n = (case frac_split_cholesky of [] \<Rightarrow> 0 | r # _ \<Rightarrow> length r)
      in if n \<noteq> 0 \<and> length frac_split_cholesky \<noteq> n then Inl ValueError
         else
           Inr (set [c \<leftarrow> [0..<n]. column_projection frac_split_cholesky random_vector c > 0],
                set [c \<leftarrow> [0..<n].
                       \<not> column_projection frac_split_cholesky random_vector c > 0]))"

text \<open>\<open>_get_split_in_orig_values\<close>\<close>

definition get_split_in_orig_values ::
  "nat list \<Rightarrow> nat set \<Rightarrow> nat set \<Rightarrow> nat set \<times> nat set" where
  "get_split_in_orig_values new_to_orig_value_int left_new_values right_new_values =
     ((\<lambda>v. new_to_orig_value_int ! v) ` left_new_values,
      (\<lambda>v. new_to_orig_value_int ! v) ` right_new_values)"

text \<open>
  \<open>_calculate_split_value\<close>: the weight of the cut; with the weights of the Chi Square
  criteria, finite when every weight across the cut is.
\<close>

definition calculate_split_value :: "nat set \<Rightarrow> nat set \<Rightarrow> matrix \<Rightarrow> real" where
  "calculate_split_value left_new_values right_new_values weights =
     (\<Sum>value_left \<in> left_new_values. \<Sum>value_right \<in> right_new_values.
        weights ! value_left ! value_right)"

definition calculate_split_value_chi_square ::
  "nat set \<Rightarrow> nat set \<Rightarrow> real option list list \<Rightarrow> real option" where
  "calculate_split_value_chi_square left_new_values right_new_values weights =
     (if \<exists>value_left \<in> left_new_values. \<exists>value_right \<in> right_new_values.
           weights ! value_left ! value_right = None
      then None
      else Some (\<Sum>value_left \<in> left_new_values. \<Sum>value_right \<in> right_new_values.
                   the (weights ! value_left ! value_right)))"

text \<open>
  \<open>_generate_best_split\<close> of the four GW classes. \<open>_solve_max_cut\<close> (the SDP solver and
  the Cholesky factorisation of module \<open>chol\<close>) is the parameter \<open>solve_max_cut\<close>; it
  returns the factor or raises. \<open>GWSquaredGini\<close> and \<open>GWChiSquare\<close> return the weight
  of the cut with the two sets (lines 464 to 492 and 634 to 689),
  \<open>ConditionalInferenceTreeGWSquaredGini\<close> and \<open>ConditionalInferenceTreeGWChiSquare\<close> the
  two sets only (lines 2810 to 2837 and 3097 to 3150).
\<close>

definition GWSquaredGini_generate_best_split ::
  "(matrix \<Rightarrow> py_error + matrix) \<Rightarrow> real list \<Rightarrow> nat list \<Rightarrow> int list list \<Rightarrow> int list
     \<Rightarrow> py_error + real \<times> nat set \<times> nat set" where
  "GWSquaredGini_generate_best_split solve_max_cut random_vector new_to_orig_value_int
       new_contingency_table new_values_num_seen =
     (let weights = init_values_weights new_contingency_table new_values_num_seen
      in case solve_max_cut weights of
           Inl e \<Rightarrow> Inl e
         | Inr frac_split_cholesky \<Rightarrow>
             (case generate_random_partition frac_split_cholesky random_vector of
                Inl e \<Rightarrow> Inl e
              | Inr (left_new_values, right_new_values) \<Rightarrow>
                  (let (left_orig_values, right_orig_values) =
                         get_split_in_orig_values new_to_orig_value_int left_new_values
                           right_new_values;
                       cut_val = calculate_split_value left_new_values right_new_values weights
                   in Inr (cut_val, left_orig_values, right_orig_values))))"

definition GWChiSquare_generate_best_split ::
  "(real option list list \<Rightarrow> py_error + matrix) \<Rightarrow> real list \<Rightarrow> nat list \<Rightarrow> int list list
     \<Rightarrow> int list \<Rightarrow> py_error + real option \<times> nat set \<times> nat set" where
  "GWChiSquare_generate_best_split solve_max_cut random_vector new_to_orig_value_int
       new_contingency_table new_values_num_seen =
     (let weights = init_values_weights_chi_square new_contingency_table new_values_num_seen
      in case solve_max_cut weights of
           Inl e \<Rightarrow> Inl e
         | Inr frac_split_cholesky \<Rightarrow>
             (case generate_random_partition frac_split_cholesky random_vector of
                Inl e \<Rightarrow> Inl e
              | Inr (left_new_values, right_new_values) \<Rightarrow>
                  (let (left_orig_values, right_orig_values) =
                         get_split_in_orig_values new_to_orig_value_int left_new_values
                           right_new_values;
                       cut_val = calculate_split_value_chi_square left_new_values
                                   right_new_values weights
                   in Inr (cut_val, left_orig_values, right_orig_values))))"

definition CIT_GWSquaredGini_generate_best_split ::
  "(matrix \<Rightarrow> py_error + matrix) \<Rightarrow> real list \<Rightarrow> nat list \<Rightarrow> int list list \<Rightarrow> int list
     \<Rightarrow> py_error + nat set \<times> nat set" where
  "CIT_GWSquaredGini_generate_best_split solve_max_cut random_vector new_to_orig_value_int
       new_contingency_table new_values_num_seen =
     (let weights = init_values_weights new_contingency_table new_values_num_seen
      in case solve_max_cut weights of
           Inl e \<Rightarrow> Inl e
         | Inr frac_split_cholesky \<Rightarrow>
             (case generate_random_partition frac_split_cholesky random_vector of
                Inl e \<Rightarrow> Inl e
              | Inr (left_new_values, right_new_values) \<Rightarrow>
                  Inr (get_split_in_orig_values new_to_orig_value_int left_new_values
                         right_new_values)))"

definition CIT_GWChiSquare_generate_best_split ::
  "(real option list list \<Rightarrow> py_error + matrix) \<Rightarrow> real list \<Rightarrow> nat list \<Rightarrow> int list list
     \<Rightarrow> int list \<Rightarrow> py_error + nat set \<times> nat set" where
  "CIT_GWChiSquare_generate_best_split solve_max_cut random_vector new_to_orig_value_int
       new_contingency_table new_values_num_seen =
     (let weights = init_values_weights_chi_square new_contingency_table new_values_num_seen
      in case solve_max_cut weights of
           Inl e \<Rightarrow> Inl e
         | Inr frac_split_cholesky \<Rightarrow>
             (case generate_random_partition frac_split_cholesky random_vector of
                Inl e \<Rightarrow> Inl e
              | Inr (left_new_values, right_new_values) \<Rightarrow>
                  Inr (get_split_in_orig_values new_to_orig_value_int left_new_values
                         right_new_values)))"

text \<open>\<open>_split_gain_for_single_switch\<close>\<close>

definition split_gain_for_single_switch ::
  "real \<Rightarrow> nat set \<Rightarrow> nat set \<Rightarrow> nat \<Rightarrow> matrix \<Rightarrow> real" where
  "split_gain_for_single_switch curr_gain left_new_values right_new_values x weights =
     (if x \<in> left_new_values
      then curr_gain + (\<Sum>v \<in> left_new_values - {x}. weights ! v ! x)
                     - (\<Sum>v \<in> right_new_values. weights ! v ! x)
      else curr_gain - (\<Sum>v \<in> left_new_values. weights ! v ! x)
                     + (\<Sum>v \<in> right_new_values - {x}. weights ! v ! x))"

text \<open>\<open>_split_gain_for_double_switch\<close>\<close>

definition split_gain_for_double_switch ::
  "real \<Rightarrow> nat set \<Rightarrow> nat set \<Rightarrow> nat \<times> nat \<Rightarrow> matrix \<Rightarrow> real" where
  "split_gain_for_double_switch curr_gain left_new_values right_new_values p weights =
     (let first_value = fst p; second_value = snd p
      in if first_value \<in> left_new_values
         then curr_gain
              + (\<Sum>v \<in> left_new_values - {first_value}.
                    weights ! v ! first_value - weights ! v ! second_value)
              + (\<Sum>v \<in> right_new_values - {second_value}.
                    - weights ! v ! first_value + weights ! v ! second_value)
         else curr_gain
              + (\<Sum>v \<in> left_new_values - {second_value}.
                    - weights ! v ! first_value + weights ! v ! second_value)
              + (\<Sum>v \<in> right_new_values - {first_value}.
                    weights ! v ! first_value - weights ! v ! second_value))"

text \<open>\<open>itertools.combinations(values_seen, 2)\<close> as pairs.\<close>

fun pairs_of :: "'a list \<Rightarrow> ('a \<times> 'a) list" where
  "pairs_of [] = []"
| "pairs_of (x # xs) = map (Pair x) xs @ pairs_of xs"

text \<open>
  One iteration of the \<open>while found_improvement\<close> loop of \<open>_switch_while_increase\<close>:
  the first single switch that gains at least \<open>EPSILON\<close>, else the first swap of a pair on
  different sides that does; \<open>None\<close> when neither exists. \<open>values_seen\<close> is the union of
  the two sets in the order Python iterates it (fixed during the call).
\<close>

definition switch_pass ::
  "nat list \<Rightarrow> real \<Rightarrow> nat set \<Rightarrow> nat set \<Rightarrow> matrix \<Rightarrow> (real \<times> nat set \<times> nat set) option" where
  "switch_pass values_seen curr_cut_val set_left_values set_right_values weights =
     (case find (\<lambda>x. split_gain_for_single_switch curr_cut_val set_left_values
                       set_right_values x weights - curr_cut_val \<ge> EPSILON) values_seen of
        Some x \<Rightarrow>
          Some (split_gain_for_single_switch curr_cut_val set_left_values set_right_values
                  x weights,
                if x \<in> set_left_values
                then (set_left_values - {x}, insert x set_right_values)
                else (insert x set_left_values, set_right_values - {x}))
      | None \<Rightarrow>
          (case find (\<lambda>p. \<not> ((fst p \<in> set_left_values \<and> snd p \<in> set_left_values) \<or>
                              (fst p \<in> set_right_values \<and> snd p \<in> set_right_values)) \<and>
                         split_gain_for_double_switch curr_cut_val set_left_values
                           set_right_values p weights - curr_cut_val \<ge> EPSILON)
                     (pairs_of values_seen) of
             Some p \<Rightarrow>
               Some (split_gain_for_double_switch curr_cut_val set_left_values
                       set_right_values p weights,
                     if fst p \<in> set_left_values
                     then (insert (snd p) (set_left_values - {fst p}),
                           insert (fst p) set_right_values - {snd p})
                     else (insert (fst p) (set_left_values - {snd p}),
                           insert (snd p) set_right_values - {fst p}))
           | None \<Rightarrow> None))"

text \<open>
  \<open>_switch_while_increase\<close>. The loop has no bound of its own: a run that never leaves
  it is the value \<open>None\<close>.
\<close>

partial_function (option) switch_while_increase ::
  "nat list \<Rightarrow> real \<Rightarrow> nat set \<Rightarrow> nat set \<Rightarrow> matrix \<Rightarrow> (real \<times> nat set \<times> nat set) option" where
  "switch_while_increase values_seen cut_val set_left_values set_right_values weights =
     (case switch_pass values_seen cut_val set_left_values set_right_values weights of
        None \<Rightarrow> Some (cut_val, set_left_values, set_right_values)
      | Some (new_cut_val, new_left, new_right) \<Rightarrow>
          switch_while_increase values_seen new_cut_val new_left new_right weights)"

text \<open>\<open>_generate_initial_partition\<close>: the greedy construction of the LS criteria.\<close>

definition initial_partition_step ::
  "matrix \<Rightarrow> nat \<Rightarrow> real \<times> nat set \<times> nat set \<Rightarrow> real \<times> nat set \<times> nat set" where
  "initial_partition_step weights x st =
     (let cut_val = fst st; set_left_values = fst (snd st); set_right_values = snd (snd st)
      in if set_left_values = {} then (cut_val, insert x set_left_values, set_right_values)
         else
           (let gain_assigning_right = (\<Sum>left_value \<in> set_left_values. weights ! x ! left_value);
                gain_assigning_left = (\<Sum>right_value \<in> set_right_values. weights ! x ! right_value)
            in if gain_assigning_right \<ge> gain_assigning_left
               then (cut_val + gain_assigning_right, set_left_values, insert x set_right_values)
               else (cut_val + gain_assigning_left, insert x set_left_values, set_right_values)))"

definition generate_initial_partition :: "nat \<Rightarrow> matrix \<Rightarrow> real \<times> nat set \<times> nat set" where
  "generate_initial_partition num_values weights =
     fold (initial_partition_step weights) [0..<num_values] (0, {}, {})"

text \<open>
  \<open>LSSquaredGini._generate_best_split\<close>: greedy partition, then the local search, whose
  cut value is kept when it is greater. \<open>_switch_while_increase\<close> changes the two sets
  it is given in place and returns them, so the sets read in the \<open>else\<close> branch are the
  sets the search returned.
\<close>

definition LS_generate_best_split ::
  "nat list \<Rightarrow> nat list \<Rightarrow> int list list \<Rightarrow> int list \<Rightarrow> (real \<times> nat set \<times> nat set) option" where
  "LS_generate_best_split values_seen new_to_orig_value_int new_contingency_table
       new_values_num_seen =
     (let weights = init_values_weights new_contingency_table new_values_num_seen;
          (cut_val, left_new_values, right_new_values) =
            generate_initial_partition (length new_values_num_seen) weights
      in case switch_while_increase values_seen cut_val left_new_values right_new_values
                weights of
           None \<Rightarrow> None
         | Some (cut_val_switched, left_new_values_switched, right_new_values_switched) \<Rightarrow>
             if cut_val_switched > cut_val
             then (let (left_orig_values, right_orig_values) =
                         get_split_in_orig_values new_to_orig_value_int
                           left_new_values_switched right_new_values_switched
                   in Some (cut_val_switched, left_orig_values, right_orig_values))
             else (let (left_orig_values, right_orig_values) =
                         get_split_in_orig_values new_to_orig_value_int
                           left_new_values_switched right_new_values_switched
                   in Some (cut_val, left_orig_values, right_orig_values)))"

subsection \<open>PC-ext\<close>

text \<open>\<open>_calculate_node_gini_index\<close>\<close>

definition calculate_node_gini_index :: "int \<Rightarrow> int list \<Rightarrow> real" where
  "calculate_node_gini_index num_split_samples num_samples_per_class_in_split =
     (if num_split_samples = 0 then 1
      else 1 - sum_list (map (\<lambda>n. (real_of_int n / real_of_int num_split_samples) ^ 2)
                             num_samples_per_class_in_split))"

text \<open>\<open>_get_gini_value\<close>: the weighted Gini index of a split.\<close>

definition get_gini_value :: "int list \<Rightarrow> int list \<Rightarrow> int \<Rightarrow> int \<Rightarrow> real" where
  "get_gini_value class_left class_right num_left num_right =
     (let num_samples = num_left + num_right
      in (real_of_int num_left / real_of_int num_samples)
           * calculate_node_gini_index num_left class_left
         + (real_of_int num_right / real_of_int num_samples)
           * calculate_node_gini_index num_right class_right)"

text \<open>\<open>_get_num_samples_per_class_in_values\<close>\<close>

definition get_num_samples_per_class_in_values :: "int list list \<Rightarrow> nat set \<Rightarrow> int list" where
  "get_num_samples_per_class_in_values ct vs =
     map (\<lambda>c. \<Sum>v \<in> vs. ct ! v ! c) [0..<(case ct of [] \<Rightarrow> 0 | r # _ \<Rightarrow> length r)]"

text \<open>\<open>_calculate_split_gini_index\<close>\<close>

definition calculate_split_gini_index ::
  "int list list \<Rightarrow> int list \<Rightarrow> nat set \<Rightarrow> nat set \<Rightarrow> real" where
  "calculate_split_gini_index ct ns left_values right_values =
     get_gini_value (get_num_samples_per_class_in_values ct left_values)
       (get_num_samples_per_class_in_values ct right_values)
       (\<Sum>v \<in> left_values. ns ! v) (\<Sum>v \<in> right_values. ns ! v)"

text \<open>\<open>np.allclose(a, b)\<close> with its default tolerances.\<close>

definition allclose :: "real list \<Rightarrow> real list \<Rightarrow> bool" where
  "allclose a b = list_all2 (\<lambda>x y. \<bar>x - y\<bar> \<le> 1 / 10 ^ 8 + (1 / 10 ^ 5) * \<bar>y\<bar>) a b"

text \<open>
  \<open>_group_values\<close>: the values with samples, sorted lexicographically by their class
  probability vector (\<open>np.lexsort\<close>, which is stable), consecutive values with close vectors
  merged into one group. Returns the table and the numbers of samples of the groups and, for
  every group, its original values. \<open>row_order[0]\<close> raises when no value has a sample.
\<close>

definition group_values ::
  "int list list \<Rightarrow> int list \<Rightarrow> py_error + int list list \<times> int list \<times> nat list list" where
  "group_values ct ns =
     (let (interm_to_orig_value_int, interm_contingency_table, interm_values_num_samples) =
            remove_empty_values ct ns;
          prob_matrix = map (\<lambda>i. map (\<lambda>x. real_of_int x
                                 / real_of_int (interm_values_num_samples ! i))
                               (interm_contingency_table ! i))
                            [0..<length interm_values_num_samples];
          row_order = sort_key (\<lambda>i. prob_matrix ! i) [0..<length interm_values_num_samples]
      in case row_order of
           [] \<Rightarrow> Inl IndexError
         | first # others \<Rightarrow>
             (let (compared_index, new_index_to_old) =
                    fold (\<lambda>interm_index (compared_index, groups).
                            if allclose (prob_matrix ! compared_index) (prob_matrix ! interm_index)
                            then (compared_index,
                                  butlast groups
                                  @ [last groups @ [interm_to_orig_value_int ! interm_index]])
                            else (interm_index,
                                  groups @ [[interm_to_orig_value_int ! interm_index]]))
                         others (first, [[interm_to_orig_value_int ! first]]);
                  num_classes = (case interm_contingency_table of [] \<Rightarrow> 0 | r # _ \<Rightarrow> length r)
              in Inr (map (\<lambda>old_indices.
                             map (\<lambda>c. sum_list (map (\<lambda>v. ct ! v ! c) old_indices))
                                 [0..<num_classes]) new_index_to_old,
                      map (\<lambda>old_indices. sum_list (map (\<lambda>v. ns ! v) old_indices))
                          new_index_to_old,
                      new_index_to_old)))"

text \<open>\<open>_change_split_to_use_old_values\<close>\<close>

definition change_split_to_use_old_values ::
  "nat set \<Rightarrow> nat set \<Rightarrow> nat list list \<Rightarrow> nat set \<times> nat set" where
  "change_split_to_use_old_values new_left new_right new_index_to_old =
     (\<Union>new_index \<in> new_left. set (new_index_to_old ! new_index),
      \<Union>new_index \<in> new_right. set (new_index_to_old ! new_index))"

text \<open>
  One iteration of the loop over \<open>enumerate(new_indices_order)\<close> (lines 3258 to 3288):
  the plain split, then the extended split that exchanges the last left group with the first
  right one. The state is (best_gini, best_left, best_right, left_values, right_values).
\<close>

definition pcext_step ::
  "int list list \<Rightarrow> int list \<Rightarrow> nat list \<Rightarrow> nat
     \<Rightarrow> xreal \<times> nat set \<times> nat set \<times> nat set \<times> nat set
     \<Rightarrow> xreal \<times> nat set \<times> nat set \<times> nat set \<times> nat set" where
  "pcext_step ct ns new_indices_order metaindex st =
     (let (best_gini, best_left, best_right, left_values, right_values) = st;
          first_right = new_indices_order ! metaindex;
          curr_split_impurity = calculate_split_gini_index ct ns left_values right_values;
          (best_gini1, best_left1, best_right1) =
            (if xlt (Fin curr_split_impurity) best_gini
             then (Fin curr_split_impurity, left_values, right_values)
             else (best_gini, best_left, best_right));
          (best_gini2, best_left2, best_right2) =
            (if left_values \<noteq> {} then
               (let last_left = new_indices_order ! (metaindex - 1);
                    ext_left = insert first_right (left_values - {last_left});
                    ext_right = insert last_left right_values - {first_right};
                    curr_ext_split_impurity = calculate_split_gini_index ct ns ext_left ext_right
                in if xlt (Fin curr_ext_split_impurity) best_gini1
                   then (Fin curr_ext_split_impurity, ext_left, ext_right)
                   else (best_gini1, best_left1, best_right1))
             else (best_gini1, best_left1, best_right1))
      in (best_gini2, best_left2, best_right2,
          insert first_right left_values, right_values - {first_right}))"

text \<open>
  The nominal branch of \<open>PCExt.select_best_attribute_and_split\<close>. The order of the groups
  along the principal component, \<open>np.dot(principal_component, table.T).argsort()\<close> with the
  eigenvectors of \<open>np.linalg.eigh\<close>, is the parameter \<open>principal_order\<close>.
\<close>

definition pcext_nominal_split ::
  "(int \<Rightarrow> int list list \<Rightarrow> int list \<Rightarrow> nat list) \<Rightarrow> tree_node \<Rightarrow> nat \<Rightarrow> py_error + split" where
  "pcext_nominal_split principal_order node attrib =
     (case py_nth (contingency_tables node) attrib of
        Inl e \<Rightarrow> Inl e
      | Inr tbl \<Rightarrow>
          (case group_values (contingency_table tbl) (values_num_samples tbl) of
             Inl e \<Rightarrow> Inl e
           | Inr (new_contingency_table, new_num_samples_per_value, new_index_to_old) \<Rightarrow>
               (let new_indices_order =
                      principal_order (int (length (valid_samples_indices node)))
                        new_contingency_table new_num_samples_per_value;
                    (best_gini, best_left_values, best_right_values, left_values, right_values) =
                      fold (pcext_step new_contingency_table new_num_samples_per_value
                              new_indices_order)
                           [0..<length new_indices_order]
                           (PInf, {}, {}, {}, set new_indices_order);
                    (best_left_old_values, best_right_old_values) =
                      change_split_to_use_old_values best_left_values best_right_values
                        new_index_to_old
                in Inr \<lparr>attrib_index = Some attrib,
                        splits_values = [Nominal ` best_left_old_values,
                                         Nominal ` best_right_old_values],
                        criterion_value = best_gini\<rparr>)))"

text \<open>\<open>PCExt._gini_for_numeric\<close>, with the state (best_gini, best_last_left_value,
  best_first_right_value, last_left_value, num_left_samples, num_right_samples,
  class_num_left, class_num_right).\<close>

definition gini_numeric_step ::
  "(real \<times> nat)
     \<Rightarrow> xreal \<times> real option \<times> real option \<times> real \<times> int \<times> int \<times> int list \<times> int list
     \<Rightarrow> xreal \<times> real option \<times> real option \<times> real \<times> int \<times> int \<times> int list \<times> int list" where
  "gini_numeric_step p st =
     (let (best_gini, best_last, best_first, last_left, num_left, num_right, cl, cr) = st;
          first_right_value = fst p;
          first_right_class = snd p;
          (best_gini1, best_last1, best_first1, last_left1) =
            (if first_right_value \<noteq> last_left then
               (let gini_value = get_gini_value cl cr num_left num_right
                in if xlt (Fin gini_value) best_gini
                   then (Fin gini_value, Some last_left, Some first_right_value, first_right_value)
                   else (best_gini, best_last, best_first, first_right_value))
             else (best_gini, best_last, best_first, last_left))
      in (best_gini1, best_last1, best_first1, last_left1, num_left + 1, num_right - 1,
          cl[first_right_class := cl ! first_right_class + 1],
          cr[first_right_class := cr ! first_right_class - 1]))"

definition gini_for_numeric ::
  "(real \<times> nat) list \<Rightarrow> nat \<Rightarrow> py_error + (xreal \<times> real option \<times> real option)" where
  "gini_for_numeric sorted_values_and_classes num_classes =
     (case sorted_values_and_classes of
        [] \<Rightarrow> Inl IndexError
      | p # ps \<Rightarrow>
          if \<exists>q \<in> set (p # ps). snd q \<ge> num_classes then Inl IndexError
          else
            (let (best_gini, best_last, best_first, rest) =
                   fold gini_numeric_step ps
                     (PInf, None, None, fst p, 1, int (length (p # ps)) - 1,
                      (replicate num_classes 0)[snd p := 1], count_classes num_classes ps)
             in Inr (best_gini, best_last, best_first)))"

definition pcext_numeric_split :: "tree_node \<Rightarrow> nat \<Rightarrow> py_error + split" where
  "pcext_numeric_split node attrib =
     (case get_numeric_values_seen (valid_samples_indices node) (dataset_samples node)
             (dataset_sample_class node) attrib of
        Inl e \<Rightarrow> Inl e
      | Inr values_and_classes \<Rightarrow>
          (case gini_for_numeric (sort values_and_classes) (dataset_num_classes node) of
             Inl e \<Rightarrow> Inl e
           | Inr (best, last_left, first_right) \<Rightarrow>
               Inr \<lparr>attrib_index = Some attrib,
                    splits_values = [{numeric_split_value last_left},
                                     {numeric_split_value first_right}],
                    criterion_value = best\<rparr>))"

fun pcext_splits_per_attrib ::
  "(int \<Rightarrow> int list list \<Rightarrow> int list \<Rightarrow> nat list) \<Rightarrow> tree_node \<Rightarrow> nat \<Rightarrow> (bool \<times> bool) list
     \<Rightarrow> py_error + split list" where
  "pcext_splits_per_attrib po node attrib [] = Inr []"
| "pcext_splits_per_attrib po node attrib ((is_nominal, is_numeric) # rest) =
     (if is_nominal then
        (case pcext_nominal_split po node attrib of
           Inl e \<Rightarrow> Inl e
         | Inr s \<Rightarrow>
             (case pcext_splits_per_attrib po node (Suc attrib) rest of
                Inl e \<Rightarrow> Inl e
              | Inr ss \<Rightarrow> Inr (s # ss)))
      else if is_numeric then
        (case pcext_numeric_split node attrib of
           Inl e \<Rightarrow> Inl e
         | Inr s \<Rightarrow>
             (case pcext_splits_per_attrib po node (Suc attrib) rest of
                Inl e \<Rightarrow> Inl e
              | Inr ss \<Rightarrow> Inr (s # ss)))
      else pcext_splits_per_attrib po node (Suc attrib) rest)"

definition PCExt_select_best_attribute_and_split ::
  "(int \<Rightarrow> int list list \<Rightarrow> int list \<Rightarrow> nat list) \<Rightarrow> tree_node \<Rightarrow> py_error + split" where
  "PCExt_select_best_attribute_and_split principal_order node =
     (case pcext_splits_per_attrib principal_order node 0
             (zip (valid_nominal_attribute node) (valid_numeric_attribute node)) of
        Inl e \<Rightarrow> Inl e
      | Inr [] \<Rightarrow> Inr Split_default
      | Inr (s # ss) \<Rightarrow> Inr (min_by_criterion s ss))"

subsection \<open>Example inputs\<close>

text \<open>Libraries whose pseudo-inverses fail on every call.\<close>

definition failing_linalg :: linalg where
  "failing_linalg = \<lparr>numpy_pinv_and_rank = (\<lambda>calls m rcond. Inl LinAlgError),
                      scipy_pinv = (\<lambda>calls m rcond. Inl OtherError),
                      chi2_cdf = (\<lambda>x df. 0)\<rparr>"



text \<open>
  A node with one valid nominal attribute of 101 values and two classes, one sample of each
  class at every value: 101 * 2 = 202 exceeds the threshold of 200.
\<close>

definition big_node :: tree_node where
  "big_node = \<lparr>valid_nominal_attribute = [True], valid_numeric_attribute = [False],
                contingency_tables = [\<lparr>contingency_table = replicate 101 [1, 1],
                                        values_num_samples = replicate 101 2\<rparr>],
                class_index_num_samples = [101, 101],
                valid_samples_indices = [0..<202],
                dataset_samples = [], dataset_sample_class = [], dataset_num_classes = 2\<rparr>"

text \<open>
  Four values with the same class distribution (one sample of each of two classes): every
  edge weighs 2. The factor is the Cholesky factor of an optimal solution of the relaxation
  (unit columns that sum to zero), and the drawn vector puts value 0 alone on the left.
\<close>

definition k4_table :: "int list list" where
  "k4_table = [[1, 1], [1, 1], [1, 1], [1, 1]]"

definition k4_factor :: matrix where
  "k4_factor = [[1, -7/25, -9/25, -9/25],
                [0, 24/25, -12/25, -12/25],
                [0, 0, 4/5, -4/5],
                [0, 0, 0, 0]]"

definition k4_random_vector :: "real list" where
  "k4_random_vector = [1, 1/10, 1/10, 1/10]"

text \<open>
  The node of the end-to-end example: one valid nominal attribute with values 0 and 1, two
  classes, contingency table \<open>[[10, 0], [0, 10]]\<close>.
\<close>

definition example_node :: tree_node where
  "example_node = \<lparr>valid_nominal_attribute = [True], valid_numeric_attribute = [False],
                    contingency_tables = [\<lparr>contingency_table = [[10, 0], [0, 10]],
                                            values_num_samples = [10, 10]\<rparr>],
                    class_index_num_samples = [10, 10],
                    valid_samples_indices = [0..<20],
                    dataset_samples = [], dataset_sample_class = [], dataset_num_classes = 2\<rparr>"

section \<open>Properties\<close>

subsection \<open>No valid attribute\<close>

lemma twoing_splits_none_valid:
  "\<forall>p \<in> set ps. \<not> fst p \<and> \<not> snd p \<Longrightarrow> twoing_splits_per_attrib node i ps = Inr []"
  by (induction ps arbitrary: i) auto

text \<open>
  C5. At a node where no attribute is marked valid (neither nominal nor numeric),
  Twoing's \<open>select_best_attribute_and_split\<close> raises nothing and returns the empty Split
  \<open>(None, [], -infinity)\<close>.
\<close>

theorem Twoing_select_no_valid_attribute:
  assumes "\<forall>p \<in> set (zip (valid_nominal_attribute node) (valid_numeric_attribute node)).
             \<not> fst p \<and> \<not> snd p"
  shows "Twoing_select_best_attribute_and_split node = Inr Split_default"
  using twoing_splits_none_valid[OF assms]
  by (simp add: Twoing_select_best_attribute_and_split_def)

theorem Twoing_select_no_valid_attribute_witness:
  "Twoing_select_best_attribute_and_split
     \<lparr>valid_nominal_attribute = [False, False], valid_numeric_attribute = [False, False],
      contingency_tables = [], class_index_num_samples = [3, 2],
      valid_samples_indices = [0, 1, 2, 3, 4], dataset_samples = [],
      dataset_sample_class = [], dataset_num_classes = 2\<rparr>
   = Inr \<lparr>attrib_index = None, splits_values = [], criterion_value = MInf\<rparr>"
  using Twoing_select_no_valid_attribute
    [of "\<lparr>valid_nominal_attribute = [False, False], valid_numeric_attribute = [False, False],
      contingency_tables = [], class_index_num_samples = [3, 2],
      valid_samples_indices = [0, 1, 2, 3, 4], dataset_samples = [],
      dataset_sample_class = [], dataset_num_classes = 2\<rparr>"]
  by (simp add: Split_default_def)

subsection \<open>The two-class trick returns a bipartition\<close>

lemma gneci_from:
  "get_non_empty_class_indices_from i cs first =
     (case first of
        Some f \<Rightarrow> (if \<exists>n \<in> set cs. n > 0 then (Some f, Some (i + length (takeWhile (\<lambda>n. \<not> n > 0) cs)))
                   else (Some f, None))
      | None \<Rightarrow>
         (case filter (\<lambda>n. n > 0) cs of
            [] \<Rightarrow> (None, None)
          | [a] \<Rightarrow> (Some (i + length (takeWhile (\<lambda>n. \<not> n > 0) cs)), None)
          | a # b # _ \<Rightarrow> (Some (i + length (takeWhile (\<lambda>n. \<not> n > 0) cs)),
                Some (i + length (takeWhile (\<lambda>n. \<not> n > 0) cs) + 1 +
                      length (takeWhile (\<lambda>n. \<not> n > 0) (tl (dropWhile (\<lambda>n. \<not> n > 0) cs)))))))"
proof (induction cs arbitrary: i first)
  case Nil then show ?case by (simp split: option.splits)
next
  case (Cons n ns)
  show ?case
  proof (cases "n > 0")
    case True
    then show ?thesis
      apply (cases first)
      apply (simp_all add: Cons.IH)
      apply (auto split: list.splits simp: filter_empty_conv)
      done
  next
    case False
    then show ?thesis
      by (cases first) (simp_all add: Cons.IH split: list.splits)
  qed
qed

lemma gneci_two:
  "(\<exists>a b. get_non_empty_class_indices cs = (Some a, Some b)) \<longleftrightarrow>
     2 \<le> length (filter (\<lambda>n. n > 0) cs)"
  unfolding get_non_empty_class_indices_def gneci_from
  by (auto split: list.splits)


lemma sweep_loop_best:
  "(best_split_total_gini_gain (sweep_loop og ns i tups s) = best_split_total_gini_gain s \<and>
    best_last_left_index (sweep_loop og ns i tups s) = best_last_left_index s) \<or>
   (best_split_total_gini_gain (sweep_loop og ns i tups s) \<noteq> MInf \<and>
    i \<le> best_last_left_index (sweep_loop og ns i tups s) \<and>
    best_last_left_index (sweep_loop og ns i tups s) < i + length tups)"
proof (induction tups arbitrary: i s)
  case Nil then show ?case by simp
next
  case (Cons tup tups)
  let ?s1 = "sweep_step og ns i tup s"
  have step: "(best_split_total_gini_gain ?s1 = best_split_total_gini_gain s \<and>
               best_last_left_index ?s1 = best_last_left_index s) \<or>
              (best_split_total_gini_gain ?s1 \<noteq> MInf \<and> best_last_left_index ?s1 = i)"
    by (simp add: sweep_step_def Let_def)
  from Cons.IH[of "Suc i" ?s1] step show ?case
    by (auto simp: less_Suc_eq)
qed

lemma value_number_ratio_fst:
  "mset (map fst (calculate_value_class_ratio vs ns ct c)) = mset vs"
  unfolding calculate_value_class_ratio_def
  by (simp add: multiset.map_comp comp_def)


lemma value_number_ratio_set:
  "set (map fst (calculate_value_class_ratio vs ns ct c)) = set vs"
  using value_number_ratio_fst[of vs ns ct c] by (metis set_mset_mset)

lemma value_number_ratio_distinct:
  "distinct vs \<Longrightarrow> distinct (map fst (calculate_value_class_ratio vs ns ct c))"
  using value_number_ratio_fst[of vs ns ct c] by (metis mset_eq_imp_distinct_iff)

lemma value_number_ratio_length:
  "length (calculate_value_class_ratio vs ns ct c) = length vs"
  by (simp add: calculate_value_class_ratio_def)

lemma take_drop_partition:
  assumes "distinct xs" "0 < k" "k < length xs"
  shows "set (take k xs) \<noteq> {}" "set xs - set (take k xs) \<noteq> {}"
        "set (take k xs) \<inter> (set xs - set (take k xs)) = {}"
        "set (take k xs) \<union> (set xs - set (take k xs)) = set xs"
proof -
  show "set (take k xs) \<noteq> {}" using assms by (cases xs) auto
  have "xs = take k xs @ drop k xs" by simp
  then have d: "set (take k xs) \<inter> set (drop k xs) = {}"
    using assms(1) by (metis distinct_append)
  have "set xs = set (take k xs) \<union> set (drop k xs)" by (metis append_take_drop_id set_append)
  with d have "set xs - set (take k xs) = set (drop k xs)" by auto
  moreover have "drop k xs \<noteq> []" using assms by simp
  ultimately show "set xs - set (take k xs) \<noteq> {}" by simp
  show "set (take k xs) \<inter> (set xs - set (take k xs)) = {}" by auto
  show "set (take k xs) \<union> (set xs - set (take k xs)) = set xs"
    by (auto dest: in_set_takeD)
qed

text \<open>
  C10. Whenever \<open>_two_class_trick\<close> returns a gain above \<open>-infinity\<close>, its two value
  sets are disjoint, both non-empty, and their union is the set of values seen it was given.
  With fewer than two non-empty superclasses, or at most one value seen, the right side is
  empty and the gain is \<open>-infinity\<close>. The values seen are a set: any order of iteration,
  without repetition.
\<close>

theorem two_class_trick_bipartition:
  assumes "distinct values_seen"
      and "two_class_trick original_gini cs values_seen ns ct num_total = (gain, left, right)"
  shows "(xgt gain MInf \<longrightarrow>
            left \<inter> right = {} \<and> left \<noteq> {} \<and> right \<noteq> {} \<and> left \<union> right = set values_seen)
       \<and> (length (filter (\<lambda>n. n > 0) cs) < 2 \<or> length values_seen \<le> 1 \<longrightarrow>
            right = {} \<and> gain = MInf)"
proof (cases "\<exists>a b. get_non_empty_class_indices cs = (Some a, Some b)")
  case False
  then have "two_class_trick original_gini cs values_seen ns ct num_total = (MInf, {0}, {})"
    by (auto simp: two_class_trick_def split: prod.splits option.splits)
  with assms(2) show ?thesis by auto
next
  case True
  then obtain a b where ab: "get_non_empty_class_indices cs = (Some a, Some b)" by blast
  from True have two: "\<not> length (filter (\<lambda>n. n > 0) cs) < 2" by (simp add: gneci_two)
  define vnr where "vnr = calculate_value_class_ratio values_seen ns ct b"
  define s0 where "s0 = \<lparr>best_split_total_gini_gain = MInf, best_last_left_index = 0,
                     num_left_first = 0, num_left_second = 0, num_left_samples = 0,
                     num_right_first = cs ! a, num_right_second = cs ! b,
                     num_right_samples = num_total\<rparr>"
  define s where "s = sweep_loop original_gini ns 0 (butlast vnr) s0"
  have res: "gain = best_split_total_gini_gain s"
            "left = set (map fst (take (best_last_left_index s + 1) vnr))"
            "right = set values_seen - left"
    using assms(2) ab by (auto simp add: two_class_trick_def Let_def vnr_def s0_def s_def)
  have len: "length vnr = length values_seen" by (simp add: vnr_def value_number_ratio_length)
  have dist: "distinct (map fst vnr)"
    using assms(1) by (simp add: vnr_def value_number_ratio_distinct)
  have sv: "set (map fst vnr) = set values_seen" unfolding vnr_def by (rule value_number_ratio_set)
  have left': "left = set (take (best_last_left_index s + 1) (map fst vnr))"
    by (simp add: res(2) take_map)
  from sweep_loop_best[of original_gini ns 0 "butlast vnr" s0]
  have cases: "(gain = MInf \<and> best_last_left_index s = 0) \<or>
               (gain \<noteq> MInf \<and> best_last_left_index s < length vnr - 1)"
    by (auto simp: res(1) s_def s0_def)
  have part1: "xgt gain MInf \<longrightarrow>
            left \<inter> right = {} \<and> left \<noteq> {} \<and> right \<noteq> {} \<and> left \<union> right = set values_seen"
  proof
    assume "xgt gain MInf"
    then have "gain \<noteq> MInf" by auto
    with cases have k: "best_last_left_index s + 1 < length (map fst vnr)" by auto
    from take_drop_partition[OF dist _ k] show
      "left \<inter> right = {} \<and> left \<noteq> {} \<and> right \<noteq> {} \<and> left \<union> right = set values_seen"
      unfolding left' res(3) sv[symmetric] by simp
  qed
  have part2: "length values_seen \<le> 1 \<longrightarrow> right = {} \<and> gain = MInf"
  proof
    assume one: "length values_seen \<le> 1"
    with len have l1: "length vnr \<le> 1" by simp
    then have "butlast vnr = []" by (cases vnr) auto
    then have "s = s0" by (simp add: s_def)
    then have g: "gain = MInf" and i: "best_last_left_index s = 0" by (simp_all add: res(1) s0_def)
    from l1 i have "take (best_last_left_index s + 1) (map fst vnr) = map fst vnr" by simp
    with left' sv have "left = set values_seen" by simp
    with g res(3) show "right = {} \<and> gain = MInf" by simp
  qed
  from part1 part2 two show ?thesis by blast
qed


lemma two_class_trick_example:
  "two_class_trick (1/2) [10, 10] [0, 1] [10, 10] [[10, 0], [0, 10]] 20 = (Fin (1/2), {0}, {1})"
  by (simp add: two_class_trick_def get_non_empty_class_indices_def
        calculate_value_class_ratio_def sweep_step_def trick_children_gini_index_def Let_def)

theorem two_class_trick_bipartition_witness:
  "two_class_trick (1/2) [10, 10] [0, 1] [10, 10] [[10, 0], [0, 10]] 20 = (Fin (1/2), {0}, {1})
   \<and> xgt (Fin (1/2)) MInf
   \<and> {0::nat} \<inter> {1} = {} \<and> {0::nat} \<noteq> {} \<and> {1::nat} \<noteq> {}
   \<and> {0::nat} \<union> {1} = set [0, 1]"
proof -
  have d: "distinct [0::nat, 1]" by simp
  have x: "xgt (Fin (1/2)) MInf" by simp
  have h: "{0::nat} \<inter> {1} = {} \<and> {0::nat} \<noteq> {} \<and> {1::nat} \<noteq> {}
           \<and> {0::nat} \<union> {1} = set [0, 1]"
    by (rule two_class_trick_bipartition[OF d two_class_trick_example, THEN conjunct1,
          THEN mp, OF x])
  show ?thesis by (rule conjI[OF two_class_trick_example conjI[OF x h]])
qed

subsection \<open>The pseudo-inverse retry ladder\<close>

lemma rcond_ladder_rungs:
  "rcond_ladder 1 = Float64 6338253001141148 (- 99)"
  "rcond_ladder 2 = Float64 7922816251426435 (- 96)"
  "rcond_ladder 3 = Float64 4951760157141522 (- 92)"
  "rcond_ladder 4 = Float64 6189700196426902 (- 89)"
  "rcond_ladder 5 = Float64 7737125245533628 (- 86)"
  "rcond_ladder 6 = Float64 4835703278458518 (- 82)"
  "rcond_ladder 7 = Float64 6044629098073148 (- 79)"
  "rcond_ladder 8 = Float64 7555786372591435 (- 76)"
  "rcond_ladder 9 = Float64 4722366482869647 (- 72)"
  by code_simp+

lemma rcond_ladder_below_ceiling:
  assumes "k \<le> 8"
  shows "\<not> float64_greater (rcond_ladder k) float64_1e_6"
proof -
  have "\<not> float64_greater float64_1e_15 float64_1e_6" by code_simp
  moreover have "\<not> float64_greater (Float64 6338253001141148 (- 99)) float64_1e_6" by code_simp
  moreover have "\<not> float64_greater (Float64 7922816251426435 (- 96)) float64_1e_6" by code_simp
  moreover have "\<not> float64_greater (Float64 4951760157141522 (- 92)) float64_1e_6" by code_simp
  moreover have "\<not> float64_greater (Float64 6189700196426902 (- 89)) float64_1e_6" by code_simp
  moreover have "\<not> float64_greater (Float64 7737125245533628 (- 86)) float64_1e_6" by code_simp
  moreover have "\<not> float64_greater (Float64 4835703278458518 (- 82)) float64_1e_6" by code_simp
  moreover have "\<not> float64_greater (Float64 6044629098073148 (- 79)) float64_1e_6" by code_simp
  moreover have "\<not> float64_greater (Float64 7555786372591435 (- 76)) float64_1e_6" by code_simp
  moreover from assms have "k \<in> {0, 1, 2, 3, 4, 5, 6, 7, 8}" by auto
  ultimately show ?thesis
    using rcond_ladder_rungs by (auto simp del: rcond_ladder.simps(2) simp add: rcond_ladder.simps(1))
qed

lemma rcond_ladder_above_ceiling: "float64_greater (rcond_ladder 9) float64_1e_6"
  unfolding rcond_ladder_rungs by code_simp

lemma pinv_retry_fail_step:
  assumes "numpy_pinv_and_rank la k sigma_j None = Inl LinAlgError"
      and "scipy_pinv la k sigma_j None = Inl e"
  shows "pinv_retry la sigma_j k r =
           (if float64_greater (float64_times r float64_10) float64_1e_6
            then Some (Inr (None, [svd_warning]))
            else pinv_retry la sigma_j (Suc k) (float64_times r float64_10))"
  by (subst pinv_retry.simps) (simp add: assms)

lemma pinv_retry_climb:
  assumes fails: "\<forall>k<n. numpy_pinv_and_rank la k sigma_j None = Inl LinAlgError
                        \<and> (\<exists>e. scipy_pinv la k sigma_j None = Inl e)"
  shows "j \<le> n \<Longrightarrow> j \<le> 8 \<Longrightarrow>
         pinv_retry la sigma_j 0 float64_1e_15 = pinv_retry la sigma_j j (rcond_ladder j)"
proof (induction j)
  case 0
  show ?case by simp
next
  case (Suc j)
  from Suc.prems fails obtain e where
    f: "numpy_pinv_and_rank la j sigma_j None = Inl LinAlgError"
       "scipy_pinv la j sigma_j None = Inl e"
    by (metis Suc_le_lessD)
  have b: "\<not> float64_greater (float64_times (rcond_ladder j) float64_10) float64_1e_6"
    using rcond_ladder_below_ceiling[of "Suc j"] Suc.prems by simp
  have "pinv_retry la sigma_j 0 float64_1e_15 = pinv_retry la sigma_j j (rcond_ladder j)"
    using Suc by simp
  also have "\<dots> = pinv_retry la sigma_j (Suc j) (rcond_ladder (Suc j))"
    by (subst pinv_retry_fail_step[OF f]) (simp add: b)
  finally show ?case .
qed

lemma pinv_retry_gives_up:
  assumes fails: "\<forall>k<9. numpy_pinv_and_rank la k sigma_j None = Inl LinAlgError
                        \<and> (\<exists>e. scipy_pinv la k sigma_j None = Inl e)"
  shows "pinv_retry la sigma_j 0 float64_1e_15 = Some (Inr (None, [svd_warning]))"
proof -
  from fails obtain e where
    f: "numpy_pinv_and_rank la 8 sigma_j None = Inl LinAlgError"
       "scipy_pinv la 8 sigma_j None = Inl e"
    by (metis eval_nat_numeral(3) lessI)
  have a: "float64_greater (float64_times (rcond_ladder 8) float64_10) float64_1e_6"
    using rcond_ladder_above_ceiling by (simp add: eval_nat_numeral)
  have "pinv_retry la sigma_j 0 float64_1e_15 = pinv_retry la sigma_j 8 (rcond_ladder 8)"
    by (rule pinv_retry_climb[OF fails]) simp_all
  also have "\<dots> = Some (Inr (None, [svd_warning]))"
    by (subst pinv_retry_fail_step[OF f]) (simp only: a if_True)
  finally show ?thesis .
qed








lemma calculate_c_quad_cdf_all_fail:
  assumes "num_valid_samples \<noteq> 0" "num_valid_samples \<noteq> 1"
      and "\<And>k m. numpy_pinv_and_rank la k m None = Inl LinAlgError"
      and "\<And>k m. scipy_pinv la k m None = Inl e"
  shows "calculate_c_quad_cdf la ct ns cs num_valid_samples = Some (Inr (MInf, [svd_warning]))"
proof -
  have "pinv_retry la m 0 float64_1e_15 = Some (Inr (None, [svd_warning]))" for m
    by (rule pinv_retry_gives_up) (simp add: assms(3,4))
  with assms(1,2) show ?thesis by (simp add: calculate_c_quad_cdf_def Let_def)
qed



subsection \<open>The chi-square switch of the Conditional Inference criteria\<close>

lemma cit_rank_chi2_eq_c_quad:
  "cit_rank_chi2 la node attrib valids = cit_rank_c_quad la node attrib valids"
  by (induction valids arbitrary: attrib) (simp_all split: sum.splits option.splits)

lemma big_node_is_big:
  "is_big_contingency_table (replicate 101 2) [101, 101]"
  by (simp add: is_big_contingency_table_def BIG_CONTINGENCY_TABLE_THRESHOLD_def)

text \<open>
  C2, evaluated at a node whose only valid attribute has 101 values seen and 2 classes seen
  (202 > 200): \<open>use_chi2\<close> is true, and the ranking pass still runs the exact linear
  statistic \<open>_calculate_c_quad_cdf\<close>; with pseudo-inverses that fail it ranks the attribute
  \<open>-infinity\<close> and prints the \<open>sigma_j\<close> warning, which Pearson's chi-square test never
  does. The two branches of the switch are the same loop (\<open>cit_rank_chi2_eq_c_quad\<close>).
\<close>

theorem CIT_chi2_mode_runs_c_quad_statistic:
  "cit_use_chi2 big_node 0 (valid_nominal_attribute big_node) = Inr True
   \<and> cit_best_splits_per_attrib failing_linalg big_node
       = Some (Inr ([\<lparr>attrib_index = Some 0, splits_values = [], criterion_value = MInf\<rparr>],
                    [svd_warning]))"
proof -
  have u: "cit_use_chi2 big_node 0 (valid_nominal_attribute big_node) = Inr True"
    using big_node_is_big by (simp add: big_node_def py_nth_def)
  have a: "numpy_pinv_and_rank failing_linalg k m None = Inl LinAlgError" for k m
    by (simp add: failing_linalg_def)
  have b: "scipy_pinv failing_linalg k m None = Inl OtherError" for k m
    by (simp add: failing_linalg_def)
  have c: "calculate_c_quad_cdf failing_linalg (replicate 101 [1, 1]) (replicate 101 2)
             [101, 101] 202 = Some (Inr (MInf, [svd_warning]))"
    by (rule calculate_c_quad_cdf_all_fail[OF _ _ a b]) simp_all
  have t: "py_nth (contingency_tables big_node) 0
             = Inr \<lparr>contingency_table = replicate 101 [1, 1],
                    values_num_samples = replicate 101 2\<rparr>"
    by (simp add: big_node_def py_nth_def)
  have n: "int (length (valid_samples_indices big_node)) = 202"
          "class_index_num_samples big_node = [101, 101]"
    by (simp_all add: big_node_def)
  have r: "cit_rank_chi2 failing_linalg big_node 0 [True]
             = Some (Inr ([\<lparr>attrib_index = Some 0, splits_values = [], criterion_value = MInf\<rparr>],
                          [svd_warning]))"
    by (simp add: t n c)
  have v: "valid_nominal_attribute big_node = [True]" by (simp add: big_node_def)
  show ?thesis using u r by (simp add: cit_best_splits_per_attrib_def v)
qed

subsection \<open>The local search of the Max-Cut criteria\<close>


















lemma k4_weights:
  "init_values_weights k4_table [2, 2, 2, 2]
     = [[0, 2, 2, 2], [2, 0, 2, 2], [2, 2, 0, 2], [2, 2, 2, 0]]"
  by code_simp

lemma k4_rounding:
  "generate_random_partition k4_factor k4_random_vector = Inr ({0}, {1, 2, 3})"
  by code_simp

lemma k4_weights_chi_square:
  "init_values_weights_chi_square k4_table [2, 2, 2, 2]
     = [[Some 0, Some 0, Some 0, Some 0], [Some 0, Some 0, Some 0, Some 0],
        [Some 0, Some 0, Some 0, Some 0], [Some 0, Some 0, Some 0, Some 0]]"
  by code_simp

lemma k4_pass1:
  "switch_pass [0, 1, 2, 3] 6 {0} {1, 2, 3}
     [[0, 2, 2, 2], [2, 0, 2, 2], [2, 2, 0, 2], [2, 2, 2, 0]] = Some (8, {0, 1}, {2, 3})"
  by code_simp

lemma k4_pass2:
  "switch_pass [0, 1, 2, 3] 8 {0, 1} {2, 3}
     [[0, 2, 2, 2], [2, 0, 2, 2], [2, 2, 0, 2], [2, 2, 2, 0]] = None"
  by code_simp

lemma k4_local_search:
  "switch_while_increase [0, 1, 2, 3] 6 {0} {1, 2, 3}
     [[0, 2, 2, 2], [2, 0, 2, 2], [2, 2, 0, 2], [2, 2, 2, 0]] = Some (8, {0, 1}, {2, 3})"
  by (subst switch_while_increase.simps, simp only: k4_pass1 option.case prod.case,
      subst switch_while_increase.simps, simp only: k4_pass2 option.case)









subsection \<open>The GW criteria return the rounded partition\<close>

lemma generate_random_partition_sets:
  assumes "generate_random_partition F rv = Inr (left_new, right_new)"
  shows "left_new = {c. c < (case F of [] \<Rightarrow> 0 | r # _ \<Rightarrow> length r) \<and> column_projection F rv c > 0}"
    and "right_new = {c. c < (case F of [] \<Rightarrow> 0 | r # _ \<Rightarrow> length r)
                         \<and> \<not> column_projection F rv c > 0}"
  using assms by (auto simp: generate_random_partition_def Let_def split: if_splits)

text \<open>
  C3, as the code has it. In each of the four GW classes \<open>_generate_best_split\<close> returns
  the partition of the randomized rounding itself, mapped to the original values: a value
  is on the left exactly when the projection of its column of the factor on the drawn
  vector is positive, and on the right otherwise. No local search runs on it (the GW
  classes have no \<open>_switch_while_increase\<close>).
\<close>

theorem GW_criteria_return_the_rounding:
  assumes "generate_random_partition frac_split_cholesky random_vector
             = Inr (left_new, right_new)"
  shows "left_new = {c. c < (case frac_split_cholesky of [] \<Rightarrow> 0 | r # _ \<Rightarrow> length r)
                        \<and> column_projection frac_split_cholesky random_vector c > 0}
       \<and> right_new = {c. c < (case frac_split_cholesky of [] \<Rightarrow> 0 | r # _ \<Rightarrow> length r)
                        \<and> \<not> column_projection frac_split_cholesky random_vector c > 0}
       \<and> (solve_max_cut (init_values_weights new_contingency_table new_values_num_seen)
             = Inr frac_split_cholesky \<longrightarrow>
            GWSquaredGini_generate_best_split solve_max_cut random_vector
                new_to_orig_value_int new_contingency_table new_values_num_seen
              = Inr (calculate_split_value left_new right_new
                       (init_values_weights new_contingency_table new_values_num_seen),
                     (\<lambda>v. new_to_orig_value_int ! v) ` left_new,
                     (\<lambda>v. new_to_orig_value_int ! v) ` right_new)
          \<and> CIT_GWSquaredGini_generate_best_split solve_max_cut random_vector
                new_to_orig_value_int new_contingency_table new_values_num_seen
              = Inr ((\<lambda>v. new_to_orig_value_int ! v) ` left_new,
                     (\<lambda>v. new_to_orig_value_int ! v) ` right_new))
       \<and> (solve_max_cut_chi_square
              (init_values_weights_chi_square new_contingency_table new_values_num_seen)
             = Inr frac_split_cholesky \<longrightarrow>
            GWChiSquare_generate_best_split solve_max_cut_chi_square random_vector
                new_to_orig_value_int new_contingency_table new_values_num_seen
              = Inr (calculate_split_value_chi_square left_new right_new
                       (init_values_weights_chi_square new_contingency_table
                          new_values_num_seen),
                     (\<lambda>v. new_to_orig_value_int ! v) ` left_new,
                     (\<lambda>v. new_to_orig_value_int ! v) ` right_new)
          \<and> CIT_GWChiSquare_generate_best_split solve_max_cut_chi_square random_vector
                new_to_orig_value_int new_contingency_table new_values_num_seen
              = Inr ((\<lambda>v. new_to_orig_value_int ! v) ` left_new,
                     (\<lambda>v. new_to_orig_value_int ! v) ` right_new))"
proof (intro conjI impI)
  show "left_new = {c. c < (case frac_split_cholesky of [] \<Rightarrow> 0 | r # _ \<Rightarrow> length r)
                        \<and> column_projection frac_split_cholesky random_vector c > 0}"
    by (rule generate_random_partition_sets(1)[OF assms])
  show "right_new = {c. c < (case frac_split_cholesky of [] \<Rightarrow> 0 | r # _ \<Rightarrow> length r)
                        \<and> \<not> column_projection frac_split_cholesky random_vector c > 0}"
    by (rule generate_random_partition_sets(2)[OF assms])
next
  assume s: "solve_max_cut (init_values_weights new_contingency_table new_values_num_seen)
               = Inr frac_split_cholesky"
  show "GWSquaredGini_generate_best_split solve_max_cut random_vector
                new_to_orig_value_int new_contingency_table new_values_num_seen
              = Inr (calculate_split_value left_new right_new
                       (init_values_weights new_contingency_table new_values_num_seen),
                     (\<lambda>v. new_to_orig_value_int ! v) ` left_new,
                     (\<lambda>v. new_to_orig_value_int ! v) ` right_new)"
    by (simp add: GWSquaredGini_generate_best_split_def Let_def s assms
          get_split_in_orig_values_def)
  show "CIT_GWSquaredGini_generate_best_split solve_max_cut random_vector
                new_to_orig_value_int new_contingency_table new_values_num_seen
              = Inr ((\<lambda>v. new_to_orig_value_int ! v) ` left_new,
                     (\<lambda>v. new_to_orig_value_int ! v) ` right_new)"
    by (simp add: CIT_GWSquaredGini_generate_best_split_def Let_def s assms
          get_split_in_orig_values_def)
next
  assume s: "solve_max_cut_chi_square
              (init_values_weights_chi_square new_contingency_table new_values_num_seen)
             = Inr frac_split_cholesky"
  show "GWChiSquare_generate_best_split solve_max_cut_chi_square random_vector
                new_to_orig_value_int new_contingency_table new_values_num_seen
              = Inr (calculate_split_value_chi_square left_new right_new
                       (init_values_weights_chi_square new_contingency_table
                          new_values_num_seen),
                     (\<lambda>v. new_to_orig_value_int ! v) ` left_new,
                     (\<lambda>v. new_to_orig_value_int ! v) ` right_new)"
    by (simp add: GWChiSquare_generate_best_split_def Let_def s assms
          get_split_in_orig_values_def)
  show "CIT_GWChiSquare_generate_best_split solve_max_cut_chi_square random_vector
                new_to_orig_value_int new_contingency_table new_values_num_seen
              = Inr ((\<lambda>v. new_to_orig_value_int ! v) ` left_new,
                     (\<lambda>v. new_to_orig_value_int ! v) ` right_new)"
    by (simp add: CIT_GWChiSquare_generate_best_split_def Let_def s assms
          get_split_in_orig_values_def)
qed

theorem GW_criteria_return_the_rounding_witness:
  "GWSquaredGini_generate_best_split (\<lambda>w. Inr k4_factor) k4_random_vector [0, 1, 2, 3]
       k4_table [2, 2, 2, 2] = Inr (6, {0}, {1, 2, 3})
   \<and> CIT_GWSquaredGini_generate_best_split (\<lambda>w. Inr k4_factor) k4_random_vector [0, 1, 2, 3]
       k4_table [2, 2, 2, 2] = Inr ({0}, {1, 2, 3})
   \<and> GWChiSquare_generate_best_split (\<lambda>w. Inr k4_factor) k4_random_vector [0, 1, 2, 3]
       k4_table [2, 2, 2, 2] = Inr (Some 0, {0}, {1, 2, 3})
   \<and> CIT_GWChiSquare_generate_best_split (\<lambda>w. Inr k4_factor) k4_random_vector [0, 1, 2, 3]
       k4_table [2, 2, 2, 2] = Inr ({0}, {1, 2, 3})"
proof -
  note th = GW_criteria_return_the_rounding[OF k4_rounding,
              of "\<lambda>w. Inr k4_factor" k4_table "[2, 2, 2, 2]" "[0, 1, 2, 3]" "\<lambda>w. Inr k4_factor"]
  have c: "calculate_split_value {0} {1, 2, 3}
             [[0, 2, 2, 2], [2, 0, 2, 2], [2, 2, 0, 2], [2, 2, 2, 0]] = 6" by code_simp
  have d: "calculate_split_value_chi_square {0} {1, 2, 3}
             [[Some 0, Some 0, Some 0, Some 0], [Some 0, Some 0, Some 0, Some 0],
              [Some 0, Some 0, Some 0, Some 0], [Some 0, Some 0, Some 0, Some 0]] = Some 0"
    by code_simp
  have i: "(\<lambda>v. [0, 1, 2, 3::nat] ! v) ` {0} = {0}"
          "(\<lambda>v. [0, 1, 2, 3::nat] ! v) ` {1, 2, 3} = {1, 2, 3}"
    by code_simp+
  from th show ?thesis unfolding k4_weights k4_weights_chi_square c d i by simp
qed

text \<open>
  C3 as stated fails: on four values with the same class distribution the rounding separates
  value 0 from the other three (cut 6) and GW Squared Gini returns that split, which the
  local search would have improved to two against two (cut 8).
\<close>

theorem GW_split_not_refined_counterexample:
  "GWSquaredGini_generate_best_split (\<lambda>w. Inr k4_factor) k4_random_vector [0, 1, 2, 3] k4_table
       [2, 2, 2, 2] = Inr (6, {0}, {1, 2, 3})
   \<and> switch_while_increase [0, 1, 2, 3] 6 {0} {1, 2, 3} (init_values_weights k4_table [2, 2, 2, 2])
     = Some (8, {0, 1}, {2, 3})"
proof
  show "GWSquaredGini_generate_best_split (\<lambda>w. Inr k4_factor) k4_random_vector [0, 1, 2, 3]
          k4_table [2, 2, 2, 2] = Inr (6, {0}, {1, 2, 3})"
    by code_simp
  show "switch_while_increase [0, 1, 2, 3] 6 {0} {1, 2, 3}
          (init_values_weights k4_table [2, 2, 2, 2]) = Some (8, {0, 1}, {2, 3})"
    unfolding k4_weights by (rule k4_local_search)
qed

subsection \<open>The scan of a numeric attribute\<close>
















subsection \<open>The end-to-end example\<close>

lemma example_twoing_select:
  "Twoing_select_best_attribute_and_split example_node
     = Inr \<lparr>attrib_index = Some 0, splits_values = [{Nominal 0}, {Nominal 1}],
            criterion_value = Fin (1 / 4)\<rparr>"
  by code_simp

lemma example_twoing_gain:
  "twoing_best_partition [[10, 0], [0, 10]] [10, 10] [10, 10] 20 = (Fin (1 / 2), {0}, {1})"
  by code_simp

lemma example_pcext_01:
  "PCExt_select_best_attribute_and_split (\<lambda>n ct ns. [0, 1]) example_node
     = Inr \<lparr>attrib_index = Some 0, splits_values = [{Nominal 1}, {Nominal 0}],
            criterion_value = Fin 0\<rparr>"
  by code_simp

lemma example_pcext_10:
  "PCExt_select_best_attribute_and_split (\<lambda>n ct ns. [1, 0]) example_node
     = Inr \<lparr>attrib_index = Some 0, splits_values = [{Nominal 0}, {Nominal 1}],
            criterion_value = Fin 0\<rparr>"
  by code_simp

text \<open>
  C9, as the code has it. On the node whose only valid attribute is nominal with table
  \<open>[[10, 0], [0, 10]]\<close>: Twoing returns the split \<open>{0}\<close> against \<open>{1}\<close> with criterion
  value 0.25, its twoing value (the Gini gain its two-class trick finds is 0.5); PC-ext
  returns the split that separates value 0 from value 1, in the order of the groups along the
  principal component, with criterion value 0, the weighted Gini index of the children.
\<close>

theorem example_node_criterion_values:
  "Twoing_select_best_attribute_and_split example_node
     = Inr \<lparr>attrib_index = Some 0, splits_values = [{Nominal 0}, {Nominal 1}],
            criterion_value = Fin (1 / 4)\<rparr>
   \<and> twoing_best_partition [[10, 0], [0, 10]] [10, 10] [10, 10] 20 = (Fin (1 / 2), {0}, {1})
   \<and> PCExt_select_best_attribute_and_split (\<lambda>n ct ns. [0, 1]) example_node
     = Inr \<lparr>attrib_index = Some 0, splits_values = [{Nominal 1}, {Nominal 0}],
            criterion_value = Fin 0\<rparr>
   \<and> PCExt_select_best_attribute_and_split (\<lambda>n ct ns. [1, 0]) example_node
     = Inr \<lparr>attrib_index = Some 0, splits_values = [{Nominal 0}, {Nominal 1}],
            criterion_value = Fin 0\<rparr>"
  using example_twoing_select example_twoing_gain example_pcext_01 example_pcext_10
  by (intro conjI)

text \<open>
  C9 as stated fails: Twoing does not return the split \<open>{0}\<close> against \<open>{1}\<close> with
  criterion value 1.0.
\<close>

theorem example_node_gain_is_not_one_counterexample:
  "\<not> (\<exists>s. Twoing_select_best_attribute_and_split example_node = Inr s
          \<and> splits_values s = [{Nominal 0}, {Nominal 1}] \<and> criterion_value s = Fin 1)"
  by (simp add: example_twoing_select)

subsection \<open>Gini gain and twoing value of one cut\<close>








subsection \<open>The two-class trick finds the best bipartition\<close>

lemma tangent_bound:
  fixes b n p :: real
  assumes "0 < n"
  shows "2 * p * b - p^2 * n \<le> b^2 / n"
proof -
  have "0 \<le> (b - p * n)^2" by simp
  then have "2 * p * b * n - p^2 * n * n \<le> b^2"
    by (simp add: power2_eq_square algebra_simps)
  then have "(2 * p * b - p^2 * n) * n \<le> b^2" by (simp add: algebra_simps)
  then show ?thesis using assms by (simp add: pos_le_divide_eq)
qed

lemma sum_pos_nonempty:
  fixes nn :: "nat \<Rightarrow> real"
  assumes "finite S" "S \<noteq> {}" "\<forall>v\<in>S. 0 < nn v"
  shows "0 < sum nn S"
  using assms by (intro sum_pos) auto

lemma linearisation:
  fixes nn bb :: "nat \<Rightarrow> real"
  assumes fin: "finite V" and pos: "\<forall>v\<in>V. 0 < nn v"
      and AB: "A \<union> B = V" "A \<inter> B = {}" "A \<noteq> {}" "B \<noteq> {}"
      and ST: "S \<union> T = V" "S \<inter> T = {}" "S \<noteq> {}" "T \<noteq> {}"
      and pA: "pA = sum bb A / sum nn A" and pB: "pB = sum bb B / sum nn B"
      and h: "\<forall>v. h v = (2 * pA * bb v - pA^2 * nn v) - (2 * pB * bb v - pB^2 * nn v)"
      and le: "sum h A \<le> sum h S"
  shows "two_class_objective nn bb A B \<le> two_class_objective nn bb S T"
proof -
  have finA: "finite A" "finite B" "finite S" "finite T"
    using fin AB(1) ST(1) by (auto intro: finite_subset)
  have nA: "0 < sum nn A" using finA AB pos by (intro sum_pos_nonempty) auto
  have nB: "0 < sum nn B" using finA AB pos by (intro sum_pos_nonempty) auto
  have nS: "0 < sum nn S" using finA ST pos by (intro sum_pos_nonempty) auto
  have nT: "0 < sum nn T" using finA ST pos by (intro sum_pos_nonempty) auto
  let ?g = "\<lambda>v. 2 * pB * bb v - pB^2 * nn v"
  let ?f = "\<lambda>v. 2 * pA * bb v - pA^2 * nn v"
  have split: "sum ?f X + sum ?g Y = sum ?g V + sum h X"
    if "X \<union> Y = V" "X \<inter> Y = {}" "finite X" "finite Y" for X Y
  proof -
    have "sum ?g (X \<union> Y) = sum ?g X + sum ?g Y"
      using that(3,4,2) by (rule sum.union_disjoint)
    then have u: "sum ?g V = sum ?g X + sum ?g Y" unfolding that(1) .
    have "h = (\<lambda>v. ?f v - ?g v)" using h by (intro ext) simp
    then have "sum h X = sum (\<lambda>v. ?f v - ?g v) X" by simp
    also have "\<dots> = sum ?f X - sum ?g X" by (rule sum_subtractf)
    finally show ?thesis using u by linarith
  qed
  have FA: "two_class_objective nn bb A B = sum ?f A + sum ?g B"
  proof -
    have "sum ?f A = 2 * pA * sum bb A - pA^2 * sum nn A"
      by (simp add: sum_subtractf sum_distrib_left)
    also have "\<dots> = (sum bb A)^2 / sum nn A"
      using nA by (simp add: pA power2_eq_square field_simps)
    finally have a: "sum ?f A = (sum bb A)^2 / sum nn A" .
    have "sum ?g B = 2 * pB * sum bb B - pB^2 * sum nn B"
      by (simp add: sum_subtractf sum_distrib_left)
    also have "\<dots> = (sum bb B)^2 / sum nn B"
      using nB by (simp add: pB power2_eq_square field_simps)
    finally have b: "sum ?g B = (sum bb B)^2 / sum nn B" .
    show ?thesis by (simp add: two_class_objective_def a b)
  qed
  have FS: "sum ?f S + sum ?g T \<le> two_class_objective nn bb S T"
  proof -
    have "sum ?f S = 2 * pA * sum bb S - pA^2 * sum nn S"
      by (simp add: sum_subtractf sum_distrib_left)
    also have "\<dots> \<le> (sum bb S)^2 / sum nn S" by (rule tangent_bound[OF nS])
    finally have a: "sum ?f S \<le> (sum bb S)^2 / sum nn S" .
    have "sum ?g T = 2 * pB * sum bb T - pB^2 * sum nn T"
      by (simp add: sum_subtractf sum_distrib_left)
    also have "\<dots> \<le> (sum bb T)^2 / sum nn T" by (rule tangent_bound[OF nT])
    finally have b: "sum ?g T \<le> (sum bb T)^2 / sum nn T" .
    show ?thesis using a b by (simp add: two_class_objective_def)
  qed
  have "two_class_objective nn bb A B = sum ?g V + sum h A"
    using FA split[OF AB(1,2) finA(1,2)] by simp
  also have "\<dots> \<le> sum ?g V + sum h S" using le by simp
  also have "\<dots> = sum ?f S + sum ?g T"
    using split[OF ST(1,2) finA(3,4)] by simp
  also have "\<dots> \<le> two_class_objective nn bb S T" by (rule FS)
  finally show ?thesis .
qed


lemma weighted_mean_witness_le:
  fixes nn bb :: "nat \<Rightarrow> real"
  assumes "finite A" "A \<noteq> {}" "\<forall>v\<in>A. 0 < nn v"
  shows "\<exists>v\<in>A. bb v \<le> (sum bb A / sum nn A) * nn v"
proof (rule ccontr)
  assume "\<not> ?thesis"
  then have "\<forall>v\<in>A. (sum bb A / sum nn A) * nn v < bb v" by auto
  then have "(\<Sum>v\<in>A. (sum bb A / sum nn A) * nn v) < sum bb A"
    using assms(1,2) by (intro sum_strict_mono) auto
  moreover have "0 < sum nn A" using assms by (intro sum_pos_nonempty) auto
  moreover have "(\<Sum>v\<in>A. (sum bb A / sum nn A) * nn v) = (sum bb A / sum nn A) * sum nn A"
    by (rule sum_distrib_left[symmetric])
  ultimately show False by simp
qed

lemma weighted_mean_witness_ge:
  fixes nn bb :: "nat \<Rightarrow> real"
  assumes "finite A" "A \<noteq> {}" "\<forall>v\<in>A. 0 < nn v"
  shows "\<exists>v\<in>A. (sum bb A / sum nn A) * nn v \<le> bb v"
proof (rule ccontr)
  assume "\<not> ?thesis"
  then have "\<forall>v\<in>A. bb v < (sum bb A / sum nn A) * nn v" by auto
  then have "sum bb A < (\<Sum>v\<in>A. (sum bb A / sum nn A) * nn v)"
    using assms(1,2) by (intro sum_strict_mono) auto
  moreover have "0 < sum nn A" using assms by (intro sum_pos_nonempty) auto
  moreover have "(\<Sum>v\<in>A. (sum bb A / sum nn A) * nn v) = (sum bb A / sum nn A) * sum nn A"
    by (rule sum_distrib_left[symmetric])
  ultimately show False by simp
qed

lemma threshold_set:
  fixes nn bb :: "nat \<Rightarrow> real"
  assumes fin: "finite V" and pos: "\<forall>v\<in>V. 0 < nn v"
      and AB: "A \<union> B = V" "A \<inter> B = {}" "A \<noteq> {}" "B \<noteq> {}"
      and pA: "pA = sum bb A / sum nn A" and pB: "pB = sum bb B / sum nn B"
      and lt: "pA < pB"
      and S: "S = {v \<in> V. bb v / nn v < (pA + pB) / 2}"
  shows "S \<noteq> {}" "V - S \<noteq> {}" "two_class_objective nn bb A B \<le> two_class_objective nn bb S (V - S)"
proof -
  have finA: "finite A" "finite B" using fin AB(1) by (auto intro: finite_subset)
  have posA: "\<forall>v\<in>A. 0 < nn v" and posB: "\<forall>v\<in>B. 0 < nn v" using pos AB(1) by auto
  have inS: "v \<in> S \<longleftrightarrow> 2 * bb v < (pA + pB) * nn v" if "v \<in> V" for v
    using that pos by (simp add: S field_simps)
  obtain a where a: "a \<in> A" "bb a \<le> pA * nn a"
    using weighted_mean_witness_le[OF finA(1) AB(3) posA, of bb] pA by auto
  have "2 * bb a < (pA + pB) * nn a"
  proof -
    have "0 < nn a" using a(1) posA by auto
    then have "pA * nn a < pB * nn a" using lt by simp
    then show ?thesis using a(2) by (simp add: algebra_simps)
  qed
  then have "a \<in> S" using inS[of a] a(1) AB(1) by auto
  then show "S \<noteq> {}" by auto
  obtain b where b: "b \<in> B" "pB * nn b \<le> bb b"
    using weighted_mean_witness_ge[OF finA(2) AB(4) posB, of bb] pB by auto
  have "\<not> 2 * bb b < (pA + pB) * nn b"
  proof -
    have "0 < nn b" using b(1) posB by auto
    then have "pA * nn b < pB * nn b" using lt by simp
    then show ?thesis using b(2) by (simp add: algebra_simps)
  qed
  then have "b \<notin> S" "b \<in> V" using inS[of b] b(1) AB(1) by auto
  then show ne2: "V - S \<noteq> {}" by auto
  define h where "h = (\<lambda>v. (2 * pA * bb v - pA^2 * nn v) - (2 * pB * bb v - pB^2 * nn v))"
  have hf: "h v = (pA - pB) * (2 * bb v - (pA + pB) * nn v)" for v
    by (simp add: h_def power2_eq_square algebra_simps)
  have hpos: "0 \<le> h v" if "v \<in> S" for v
  proof -
    have "v \<in> V" using that S by auto
    then have "2 * bb v - (pA + pB) * nn v < 0" using inS[of v] that by simp
    then show ?thesis unfolding hf using lt by (simp add: mult_nonpos_nonpos)
  qed
  have hneg: "h v \<le> 0" if "v \<in> V" "v \<notin> S" for v
  proof -
    have "0 \<le> 2 * bb v - (pA + pB) * nn v" using inS[of v] that by simp
    then show ?thesis unfolding hf using lt by (simp add: mult_nonpos_nonneg)
  qed
  have finS: "finite S" using fin S by auto
  have "sum h A = sum h (A \<inter> S) + sum h (A - S)"
    using finA(1) by (metis Int_Diff_Un Int_Diff_disjoint finite_Diff finite_Int sum.union_disjoint)
  moreover have "sum h (A - S) \<le> 0"
    using AB(1) by (intro sum_nonpos hneg) auto
  moreover have "sum h S = sum h (A \<inter> S) + sum h (S - A)"
    using finS by (metis Int_Diff_Un Int_Diff_disjoint Int_commute finite_Diff finite_Int sum.union_disjoint)
  moreover have "0 \<le> sum h (S - A)"
    by (intro sum_nonneg hpos) auto
  ultimately have le: "sum h A \<le> sum h S" by linarith
  have ST: "S \<union> (V - S) = V" "S \<inter> (V - S) = {}" using S by auto
  have hd: "\<forall>v. h v = (2 * pA * bb v - pA^2 * nn v) - (2 * pB * bb v - pB^2 * nn v)"
    by (simp add: h_def)
  show "two_class_objective nn bb A B \<le> two_class_objective nn bb S (V - S)"
    by (rule linearisation[OF fin pos AB ST \<open>S \<noteq> {}\<close> ne2 pA pB hd le])
qed

lemma equal_ratio_case:
  fixes nn bb :: "nat \<Rightarrow> real"
  assumes fin: "finite V" and pos: "\<forall>v\<in>V. 0 < nn v"
      and AB: "A \<union> B = V" "A \<inter> B = {}" "A \<noteq> {}" "B \<noteq> {}"
      and ST: "S \<union> T = V" "S \<inter> T = {}" "S \<noteq> {}" "T \<noteq> {}"
      and eq: "sum bb A / sum nn A = sum bb B / sum nn B"
  shows "two_class_objective nn bb A B \<le> two_class_objective nn bb S T"
proof -
  define h where "h = (\<lambda>v. (2 * (sum bb A / sum nn A) * bb v - (sum bb A / sum nn A)^2 * nn v)
                          - (2 * (sum bb B / sum nn B) * bb v - (sum bb B / sum nn B)^2 * nn v))"
  have "h v = 0" for v by (simp add: h_def eq)
  then have le: "sum h A \<le> sum h S" by simp
  have hd: "\<forall>v. h v = (2 * (sum bb A / sum nn A) * bb v - (sum bb A / sum nn A)^2 * nn v)
                          - (2 * (sum bb B / sum nn B) * bb v - (sum bb B / sum nn B)^2 * nn v)"
    by (simp add: h_def)
  show ?thesis
    by (rule linearisation[OF fin pos AB ST refl refl hd le])
qed

lemma two_class_objective_commute: "two_class_objective nn bb S T = two_class_objective nn bb T S"
  by (simp add: two_class_objective_def add.commute)


lemma sorted_filter_takeWhile:
  fixes f :: "'a \<Rightarrow> real"
  shows "sorted (map f xs) \<Longrightarrow> filter (\<lambda>v. f v < t) xs = takeWhile (\<lambda>v. f v < t) xs"
proof (induction xs)
  case Nil then show ?case by simp
next
  case (Cons x xs)
  show ?case
  proof (cases "f x < t")
    case True
    then show ?thesis using Cons by simp
  next
    case False
    then have "\<forall>y\<in>set xs. \<not> f y < t" using Cons.prems by auto
    then have "filter (\<lambda>v. f v < t) xs = []" by (simp add: filter_empty_conv)
    then show ?thesis using False by simp
  qed
qed


lemma distinct_take_drop_sets:
  assumes "distinct xs"
  shows "set xs - set (take j xs) = set (drop j xs)"
        "set (take j xs) \<union> set (drop j xs) = set xs"
        "set (take j xs) \<inter> set (drop j xs) = {}"
proof -
  have d: "distinct (take j xs @ drop j xs)" using assms by simp
  then show i: "set (take j xs) \<inter> set (drop j xs) = {}" by (simp only: distinct_append)
  show u: "set (take j xs) \<union> set (drop j xs) = set xs"
    by (metis append_take_drop_id set_append)
  from i u show "set xs - set (take j xs) = set (drop j xs)" by auto
qed


lemma threshold_is_prefix:
  fixes f :: "nat \<Rightarrow> real"
  assumes "distinct svs" "sorted (map f svs)"
      and "S = {v \<in> set svs. f v < t}" "S \<noteq> {}" "set svs - S \<noteq> {}"
  shows "\<exists>j. 0 < j \<and> j < length svs \<and> S = set (take j svs) \<and> set svs - S = set (drop j svs)"
proof -
  define j where "j = length (takeWhile (\<lambda>v. f v < t) svs)"
  have "S = set (filter (\<lambda>v. f v < t) svs)" using assms(3) by auto
  also have "\<dots> = set (takeWhile (\<lambda>v. f v < t) svs)"
    using sorted_filter_takeWhile[OF assms(2)] by simp
  also have "\<dots> = set (take j svs)"
    unfolding j_def by (rule arg_cong[OF takeWhile_eq_take])
  finally have S: "S = set (take j svs)" .
  have T: "set svs - S = set (drop j svs)"
    unfolding S by (rule distinct_take_drop_sets(1)[OF assms(1)])
  have "0 < j" using S assms(4) by (cases j) auto
  moreover have "j < length svs" using T assms(5) by (cases "j < length svs") auto
  ultimately show ?thesis using S T by blast
qed


lemma optimal_prefix_exists:
  fixes nn bb :: "nat \<Rightarrow> real"
  assumes dist: "distinct svs" and srt: "sorted (map (\<lambda>v. bb v / nn v) svs)"
      and len: "2 \<le> length svs"
      and pos: "\<forall>v\<in>set svs. 0 < nn v"
      and AB: "A \<union> B = set svs" "A \<inter> B = {}" "A \<noteq> {}" "B \<noteq> {}"
  shows "\<exists>j. 0 < j \<and> j < length svs
             \<and> two_class_objective nn bb A B \<le> two_class_objective nn bb (set (take j svs)) (set (drop j svs))"
proof -
  let ?V = "set svs"
  let ?pA = "sum bb A / sum nn A"
  let ?pB = "sum bb B / sum nn B"
  have fin: "finite ?V" by simp
  consider "?pA = ?pB" | "?pA < ?pB" | "?pB < ?pA" by linarith
  then show ?thesis
  proof cases
    case 1
    have "take 1 svs \<noteq> []" using len by (cases svs) auto
    moreover have "drop 1 svs \<noteq> []" using len by simp
    ultimately have ne: "set (take 1 svs) \<noteq> {}" "set (drop 1 svs) \<noteq> {}"
      by (simp_all only: set_empty not_False_eq_True)
    have "two_class_objective nn bb A B \<le> two_class_objective nn bb (set (take 1 svs)) (set (drop 1 svs))"
      by (rule equal_ratio_case[OF fin pos AB distinct_take_drop_sets(2,3)[OF dist, of 1] ne 1])
    moreover have "(0::nat) < 1" "1 < length svs" using len by simp_all
    ultimately show ?thesis by blast
  next
    case 2
    define S where "S = {v \<in> ?V. bb v / nn v < (?pA + ?pB) / 2}"
    from threshold_set[OF fin pos AB refl refl 2 S_def]
    have t: "S \<noteq> {}" "?V - S \<noteq> {}" "two_class_objective nn bb A B \<le> two_class_objective nn bb S (?V - S)" by auto
    from threshold_is_prefix[OF dist srt S_def t(1,2)]
    obtain j where j: "0 < j" "j < length svs" "S = set (take j svs)" "?V - S = set (drop j svs)"
      by blast
    have "two_class_objective nn bb A B \<le> two_class_objective nn bb (set (take j svs)) (set (drop j svs))"
      using t(3) unfolding j(4) unfolding j(3) .
    with j(1,2) show ?thesis by blast
  next
    case 3
    have BA: "B \<union> A = ?V" "B \<inter> A = {}" using AB by auto
    define S where "S = {v \<in> ?V. bb v / nn v < (?pB + ?pA) / 2}"
    from threshold_set[OF fin pos BA AB(4) AB(3) refl refl 3 S_def]
    have t: "S \<noteq> {}" "?V - S \<noteq> {}" "two_class_objective nn bb B A \<le> two_class_objective nn bb S (?V - S)" by auto
    from threshold_is_prefix[OF dist srt S_def t(1,2)]
    obtain j where j: "0 < j" "j < length svs" "S = set (take j svs)" "?V - S = set (drop j svs)"
      by blast
    have "two_class_objective nn bb B A \<le> two_class_objective nn bb (set (take j svs)) (set (drop j svs))"
      using t(3) unfolding j(4) unfolding j(3) .
    then have "two_class_objective nn bb A B \<le> two_class_objective nn bb (set (take j svs)) (set (drop j svs))"
      by (simp only: two_class_objective_commute[of nn bb A B])
    with j(1,2) show ?thesis by blast
  qed
qed

lemma best_prefix_Suc:
  "best_prefix og ns cA cB N ts (Suc k) =
     (let b = best_prefix og ns cA cB N ts k
      in if xgt (Fin (prefix_gain og ns cA cB N ts (Suc k))) (fst b)
         then (Fin (prefix_gain og ns cA cB N ts (Suc k)), k) else b)"
  by (simp add: best_prefix_def Let_def)

lemma sweep_loop_invariant:
  assumes "ts = pre @ rest"
      and "num_left_samples s = sum_list (map (\<lambda>t. ns ! fst t) pre)"
      and "num_left_second s = sum_list (map (\<lambda>t. fst (snd t)) pre)"
      and "num_left_first s = num_left_samples s - num_left_second s"
      and "num_right_samples s = N - num_left_samples s"
      and "num_right_first s = cA - num_left_first s"
      and "num_right_second s = cB - num_left_second s"
      and "(best_split_total_gini_gain s, best_last_left_index s)
             = best_prefix og ns cA cB N ts (length pre)"
  shows "(best_split_total_gini_gain (sweep_loop og ns (length pre) rest s),
          best_last_left_index (sweep_loop og ns (length pre) rest s))
           = best_prefix og ns cA cB N ts (length ts)"
  using assms
proof (induction rest arbitrary: pre s)
  case Nil
  then show ?case by simp
next
  case (Cons tup rest)
  let ?k = "length pre"
  let ?s' = "sweep_step og ns ?k tup s"
  have tk: "take (Suc ?k) ts = pre @ [tup]" using Cons.prems(1) by simp
  have nl: "num_left_samples ?s' = sum_list (map (\<lambda>t. ns ! fst t) (pre @ [tup]))"
    using Cons.prems(2) by (simp add: sweep_step_def Let_def)
  have nls: "num_left_second ?s' = sum_list (map (\<lambda>t. fst (snd t)) (pre @ [tup]))"
    using Cons.prems(3) by (simp add: sweep_step_def Let_def)
  have nlf: "num_left_first ?s' = num_left_samples ?s' - num_left_second ?s'"
    using Cons.prems(4) by (simp add: sweep_step_def Let_def)
  have nr: "num_right_samples ?s' = N - num_left_samples ?s'"
    using Cons.prems(5) by (simp add: sweep_step_def Let_def)
  have nrf: "num_right_first ?s' = cA - num_left_first ?s'"
    using Cons.prems(4,6) by (simp add: sweep_step_def Let_def)
  have nrs: "num_right_second ?s' = cB - num_left_second ?s'"
    using Cons.prems(7) by (simp add: sweep_step_def Let_def)
  have pg: "prefix_gain og ns cA cB N ts (Suc ?k)
              = og - trick_children_gini_index (num_left_first ?s') (num_left_second ?s')
                       (num_right_first ?s') (num_right_second ?s')
                       (num_left_samples ?s') (num_right_samples ?s')"
    unfolding prefix_gain_def tk Let_def nrf nrs nr nlf nl nls ..
  have curr: "og - trick_children_gini_index (num_left_first ?s') (num_left_second ?s')
                       (num_right_first ?s') (num_right_second ?s')
                       (num_left_samples ?s') (num_right_samples ?s')
              = og - trick_children_gini_index
                  (num_left_first s + (ns ! fst tup - fst (snd tup)))
                  (num_left_second s + fst (snd tup))
                  (num_right_first s - (ns ! fst tup - fst (snd tup)))
                  (num_right_second s - fst (snd tup))
                  (num_left_samples s + ns ! fst tup)
                  (num_right_samples s - ns ! fst tup)"
    by (simp add: sweep_step_def Let_def)
  have b: "(best_split_total_gini_gain ?s', best_last_left_index ?s')
             = best_prefix og ns cA cB N ts (Suc ?k)"
    unfolding best_prefix_Suc Cons.prems(8)[symmetric] pg curr
    by (simp add: sweep_step_def Let_def)
  have "(best_split_total_gini_gain (sweep_loop og ns (length (pre @ [tup])) rest ?s'),
          best_last_left_index (sweep_loop og ns (length (pre @ [tup])) rest ?s'))
           = best_prefix og ns cA cB N ts (length ts)"
    using Cons.prems(1) nl nls nlf nr nrf nrs b
    by (intro Cons.IH[of "pre @ [tup]" ?s']) simp_all
  then show ?case by simp
qed

lemma best_prefix_char:
  assumes "0 < k"
  shows "\<exists>idx. idx < k
           \<and> best_prefix og ns cA cB N ts k = (Fin (prefix_gain og ns cA cB N ts (Suc idx)), idx)
           \<and> (\<forall>j < k. prefix_gain og ns cA cB N ts (Suc j) \<le> prefix_gain og ns cA cB N ts (Suc idx))"
  using assms
proof (induction k)
  case 0
  then show ?case by simp
next
  case (Suc k)
  show ?case
  proof (cases "k = 0")
    case True
    have "best_prefix og ns cA cB N ts (Suc 0) = (Fin (prefix_gain og ns cA cB N ts (Suc 0)), 0)"
      by (simp add: best_prefix_def)
    then show ?thesis using True by auto
  next
    case False
    then obtain idx where i: "idx < k"
        "best_prefix og ns cA cB N ts k = (Fin (prefix_gain og ns cA cB N ts (Suc idx)), idx)"
        "\<forall>j < k. prefix_gain og ns cA cB N ts (Suc j) \<le> prefix_gain og ns cA cB N ts (Suc idx)"
      using Suc.IH by auto
    show ?thesis
    proof (cases "prefix_gain og ns cA cB N ts (Suc k) > prefix_gain og ns cA cB N ts (Suc idx)")
      case True
      have "best_prefix og ns cA cB N ts (Suc k) = (Fin (prefix_gain og ns cA cB N ts (Suc k)), k)"
        using True i(2) by (simp add: best_prefix_Suc)
      moreover have "\<forall>j < Suc k. prefix_gain og ns cA cB N ts (Suc j)
                        \<le> prefix_gain og ns cA cB N ts (Suc k)"
        using i(3) True by (fastforce simp: less_Suc_eq)
      ultimately show ?thesis by blast
    next
      case False
      have "best_prefix og ns cA cB N ts (Suc k) = (Fin (prefix_gain og ns cA cB N ts (Suc idx)), idx)"
        using False i(2) by (simp add: best_prefix_Suc)
      moreover have "\<forall>j < Suc k. prefix_gain og ns cA cB N ts (Suc j)
                        \<le> prefix_gain og ns cA cB N ts (Suc idx)"
        using i(3) False by (fastforce simp: less_Suc_eq)
      moreover have "idx < Suc k" using i(1) by simp
      ultimately show ?thesis by blast
    qed
  qed
qed

lemma side_gini_identity:
  fixes n b :: real
  assumes "n \<noteq> 0"
  shows "n * (1 - ((n - b) / n)^2 - (b / n)^2) = 2 * b - 2 * b^2 / n"
proof -
  have "n * (1 - ((n - b) / n)^2 - (b / n)^2) = (n^2 - (n - b)^2 - b^2) / n"
    using assms by (simp add: power2_eq_square field_simps)
  also have "n^2 - (n - b)^2 - b^2 = 2 * b * n - 2 * b^2"
    by (simp add: power2_eq_square algebra_simps)
  also have "(2 * b * n - 2 * b^2) / n = 2 * b - 2 * b^2 / n"
    using assms by (simp add: diff_divide_distrib)
  finally show ?thesis .
qed

lemma children_as_objective:
  assumes "0 < nA" "0 < nB"
  shows "trick_children_gini_index (nA - bA) bA (nB - bB) bB nA nB
           = (2 / real_of_int (nA + nB))
             * (real_of_int bA + real_of_int bB
                - ((real_of_int bA)^2 / real_of_int nA + (real_of_int bB)^2 / real_of_int nB))"
proof -
  have a: "real_of_int nA \<noteq> 0" "real_of_int nB \<noteq> 0" using assms by simp_all
  have "trick_children_gini_index (nA - bA) bA (nB - bB) bB nA nB
          = (real_of_int nA * (1 - ((real_of_int nA - real_of_int bA) / real_of_int nA)^2
                                 - (real_of_int bA / real_of_int nA)^2)
             + real_of_int nB * (1 - ((real_of_int nB - real_of_int bB) / real_of_int nB)^2
                                   - (real_of_int bB / real_of_int nB)^2))
            / real_of_int (nA + nB)"
    using assms by (simp add: trick_children_gini_index_def Let_def)
  also have "\<dots> = ((2 * real_of_int bA - 2 * (real_of_int bA)^2 / real_of_int nA)
                    + (2 * real_of_int bB - 2 * (real_of_int bB)^2 / real_of_int nB))
                   / real_of_int (nA + nB)"
    unfolding side_gini_identity[OF a(1)] side_gini_identity[OF a(2)] ..
  also have "\<dots> = (2 / real_of_int (nA + nB))
             * (real_of_int bA + real_of_int bB
                - ((real_of_int bA)^2 / real_of_int nA + (real_of_int bB)^2 / real_of_int nB))"
    by (simp add: algebra_simps diff_divide_distrib add_divide_distrib)
  finally show ?thesis .
qed

text \<open>The Gini gain of a bipartition of the values, through the two-class objective.\<close>

lemma partition_gain_as_objective:
  assumes fin: "finite V"
      and cons: "\<forall>v\<in>V. 0 < ns ! v \<and> ns ! v = ct ! v ! a + ct ! v ! b"
      and AB: "A \<union> B = V" "A \<inter> B = {}" "A \<noteq> {}" "B \<noteq> {}"
  shows "partition_gini_gain og ns ct a b A B
           = og - (2 / (\<Sum>v\<in>V. real_of_int (ns ! v)))
                  * ((\<Sum>v\<in>V. real_of_int (ct ! v ! b))
                     - two_class_objective (\<lambda>v. real_of_int (ns ! v))
                         (\<lambda>v. real_of_int (ct ! v ! b)) A B)"
proof -
  have finA: "finite A" "finite B" using fin AB(1) by (auto intro: finite_subset)
  have nA: "0 < (\<Sum>v\<in>A. ns ! v)" using finA(1) AB(1,3) cons by (intro sum_pos) auto
  have nB: "0 < (\<Sum>v\<in>B. ns ! v)" using finA(2) AB(1,4) cons by (intro sum_pos) auto
  have fA: "(\<Sum>v\<in>A. ct ! v ! a) = (\<Sum>v\<in>A. ns ! v) - (\<Sum>v\<in>A. ct ! v ! b)"
  proof -
    have "(\<Sum>v\<in>A. ns ! v) = (\<Sum>v\<in>A. ct ! v ! a + ct ! v ! b)"
      using cons AB(1) by (intro sum.cong) auto
    then show ?thesis by (simp add: sum.distrib)
  qed
  have fB: "(\<Sum>v\<in>B. ct ! v ! a) = (\<Sum>v\<in>B. ns ! v) - (\<Sum>v\<in>B. ct ! v ! b)"
  proof -
    have "(\<Sum>v\<in>B. ns ! v) = (\<Sum>v\<in>B. ct ! v ! a + ct ! v ! b)"
      using cons AB(1) by (intro sum.cong) auto
    then show ?thesis by (simp add: sum.distrib)
  qed
  have uN: "(\<Sum>v\<in>V. real_of_int (ns ! v))
              = real_of_int ((\<Sum>v\<in>A. ns ! v) + (\<Sum>v\<in>B. ns ! v))"
    using sum.union_disjoint[OF finA AB(2), of "\<lambda>v. real_of_int (ns ! v)"] AB(1) by simp
  have uB: "(\<Sum>v\<in>V. real_of_int (ct ! v ! b))
              = real_of_int (\<Sum>v\<in>A. ct ! v ! b) + real_of_int (\<Sum>v\<in>B. ct ! v ! b)"
    using sum.union_disjoint[OF finA AB(2), of "\<lambda>v. real_of_int (ct ! v ! b)"] AB(1) by simp
  show ?thesis
    unfolding partition_gini_gain_def fA fB children_as_objective[OF nA nB] uN uB
      two_class_objective_def
    by simp
qed

lemma value_number_ratio_tuples:
  assumes "t \<in> set (calculate_value_class_ratio vs ns ct b)"
  shows "fst t \<in> set vs" "fst (snd t) = ct ! fst t ! b"
        "snd (snd t) = real_of_int (ct ! fst t ! b) / real_of_int (ns ! fst t)"
  using assms by (auto simp: calculate_value_class_ratio_def)

lemma value_number_ratio_sorted:
  "sorted (map (\<lambda>v. real_of_int (ct ! v ! b) / real_of_int (ns ! v))
               (map fst (calculate_value_class_ratio vs ns ct b)))"
proof -
  let ?vnr = "calculate_value_class_ratio vs ns ct b"
  have "sorted (map (\<lambda>(v, num, ratio). ratio) ?vnr)"
    unfolding calculate_value_class_ratio_def by (rule sorted_sort_key)
  moreover have "map (\<lambda>(v, num, ratio). ratio) ?vnr
                  = map (\<lambda>v. real_of_int (ct ! v ! b) / real_of_int (ns ! v)) (map fst ?vnr)"
    using value_number_ratio_tuples(3)[of _ vs ns ct b]
    by (auto simp: case_prod_beta)
  ultimately show ?thesis by simp
qed

lemma prefix_gain_partition:
  assumes dist: "distinct vs"
      and cons: "\<forall>v\<in>set vs. 0 < ns ! v \<and> ns ! v = ct ! v ! a + ct ! v ! b"
      and j: "j < length vs"
  shows "prefix_gain og ns (\<Sum>v\<in>set vs. ct ! v ! a) (\<Sum>v\<in>set vs. ct ! v ! b)
           (\<Sum>v\<in>set vs. ns ! v) (butlast (calculate_value_class_ratio vs ns ct b)) j
         = partition_gini_gain og ns ct a b
             (set (take j (map fst (calculate_value_class_ratio vs ns ct b))))
             (set (drop j (map fst (calculate_value_class_ratio vs ns ct b))))"
proof -
  let ?vnr = "calculate_value_class_ratio vs ns ct b"
  let ?svs = "map fst ?vnr"
  let ?L = "set (take j ?svs)" and ?R = "set (drop j ?svs)"
  have len: "length ?vnr = length vs" by (rule value_number_ratio_length)
  have tb: "take j (butlast ?vnr) = take j ?vnr"
    using j len by (simp add: take_butlast)
  have dsv: "distinct ?svs" using dist by (rule value_number_ratio_distinct)
  have ssv: "set ?svs = set vs" by (rule value_number_ratio_set)
  have LR: "?L \<union> ?R = set vs" "?L \<inter> ?R = {}"
    using distinct_take_drop_sets(2,3)[OF dsv, of j] ssv by auto
  have dL: "distinct (take j ?svs)" using dsv by simp
  have sub: "set (take j ?vnr) \<subseteq> set ?vnr" by (rule set_take_subset)
  have nL: "sum_list (map (\<lambda>t. ns ! fst t) (take j ?vnr)) = (\<Sum>v\<in>?L. ns ! v)"
  proof -
    have "sum_list (map (\<lambda>t. ns ! fst t) (take j ?vnr)) = sum_list (map (\<lambda>v. ns ! v) (take j ?svs))"
      by (simp add: take_map comp_def)
    also have "\<dots> = (\<Sum>v\<in>?L. ns ! v)" using dL by (rule sum_list_distinct_conv_sum_set)
    finally show ?thesis .
  qed
  have bL: "sum_list (map (\<lambda>t. fst (snd t)) (take j ?vnr)) = (\<Sum>v\<in>?L. ct ! v ! b)"
  proof -
    have "map (\<lambda>t. fst (snd t)) (take j ?vnr) = map (\<lambda>t. ct ! fst t ! b) (take j ?vnr)"
      using value_number_ratio_tuples(2)[of _ vs ns ct b] sub by (intro map_cong) auto
    moreover have "map (\<lambda>t. ct ! fst t ! b) (take j ?vnr) = map (\<lambda>v. ct ! v ! b) (take j ?svs)"
      by (simp add: take_map comp_def)
    ultimately have "sum_list (map (\<lambda>t. fst (snd t)) (take j ?vnr))
                 = sum_list (map (\<lambda>v. ct ! v ! b) (take j ?svs))"
      by (simp only:)
    also have "\<dots> = (\<Sum>v\<in>?L. ct ! v ! b)" using dL by (rule sum_list_distinct_conv_sum_set)
    finally show ?thesis .
  qed
  have finLR: "finite ?L" "finite ?R" by simp_all
  have aL: "(\<Sum>v\<in>?L. ns ! v) - (\<Sum>v\<in>?L. ct ! v ! b) = (\<Sum>v\<in>?L. ct ! v ! a)"
  proof -
    have "(\<Sum>v\<in>?L. ns ! v) = (\<Sum>v\<in>?L. ct ! v ! a + ct ! v ! b)"
      using cons LR(1) by (intro sum.cong) auto
    then show ?thesis by (simp add: sum.distrib)
  qed
  have un: "(\<Sum>v\<in>set vs. f v) = (\<Sum>v\<in>?L. f v) + (\<Sum>v\<in>?R. f v)" for f :: "nat \<Rightarrow> int"
    using sum.union_disjoint[OF finLR LR(2), of f] LR(1) by simp
  show ?thesis
    unfolding prefix_gain_def Let_def tb nL bL aL partition_gini_gain_def
    unfolding un[of "\<lambda>v. ct ! v ! a"] un[of "\<lambda>v. ct ! v ! b"] un[of "\<lambda>v. ns ! v"]
    by simp
qed


text \<open>
  C1. For a table collapsed to exactly two non-empty superclasses (every value seen has
  samples, all of them in the two classes, and the totals are those of the table), with at
  least two values seen: the two sets that \<open>_two_class_trick\<close> returns are a bipartition
  of the values seen, the gain it returns is the Gini gain of that bipartition, and no
  bipartition of the values seen into two non-empty sets has a greater Gini gain.
\<close>

theorem two_class_trick_optimal:
  assumes dist: "distinct values_seen" and len: "2 \<le> length values_seen"
      and cls: "get_non_empty_class_indices cs = (Some a, Some b)"
      and cons: "\<forall>v\<in>set values_seen. 0 < ns ! v \<and> ns ! v = ct ! v ! a + ct ! v ! b"
      and tot: "cs ! a = (\<Sum>v\<in>set values_seen. ct ! v ! a)"
               "cs ! b = (\<Sum>v\<in>set values_seen. ct ! v ! b)"
               "num_total = (\<Sum>v\<in>set values_seen. ns ! v)"
      and res: "two_class_trick original_gini cs values_seen ns ct num_total = (gain, left, right)"
  shows "left \<union> right = set values_seen \<and> left \<inter> right = {} \<and> left \<noteq> {} \<and> right \<noteq> {}
       \<and> gain = Fin (partition_gini_gain original_gini ns ct a b left right)
       \<and> (\<forall>A B. A \<union> B = set values_seen \<and> A \<inter> B = {} \<and> A \<noteq> {} \<and> B \<noteq> {}
              \<longrightarrow> partition_gini_gain original_gini ns ct a b A B
                  \<le> partition_gini_gain original_gini ns ct a b left right)"
proof -
  let ?V = "set values_seen"
  define vnr where "vnr = calculate_value_class_ratio values_seen ns ct b"
  define svs where "svs = map fst vnr"
  define tups where "tups = butlast vnr"
  define s0 where "s0 = \<lparr>best_split_total_gini_gain = MInf, best_last_left_index = 0,
                     num_left_first = 0, num_left_second = 0, num_left_samples = 0,
                     num_right_first = cs ! a, num_right_second = cs ! b,
                     num_right_samples = num_total\<rparr>"
  define s where "s = sweep_loop original_gini ns 0 tups s0"
  let ?pg = "prefix_gain original_gini ns (cs ! a) (cs ! b) num_total tups"
  let ?G = "partition_gini_gain original_gini ns ct a b"
  have r: "gain = best_split_total_gini_gain s"
          "left = set (map fst (take (best_last_left_index s + 1) vnr))"
          "right = ?V - left"
    using res cls by (auto simp add: two_class_trick_def Let_def vnr_def s0_def s_def tups_def)
  have lv: "length vnr = length values_seen" by (simp add: vnr_def value_number_ratio_length)
  have lsv: "length svs = length values_seen" by (simp add: svs_def lv)
  have lt: "length tups = length values_seen - 1" by (simp add: tups_def lv)
  have dsv: "distinct svs" unfolding svs_def vnr_def using dist by (rule value_number_ratio_distinct)
  have ssv: "set svs = ?V" unfolding svs_def vnr_def by (rule value_number_ratio_set)
  have srt: "sorted (map (\<lambda>v. real_of_int (ct ! v ! b) / real_of_int (ns ! v)) svs)"
    unfolding svs_def vnr_def by (rule value_number_ratio_sorted)
  have inv: "(best_split_total_gini_gain s, best_last_left_index s)
               = best_prefix original_gini ns (cs ! a) (cs ! b) num_total tups (length tups)"
    unfolding s_def
    using sweep_loop_invariant[of tups "[]" tups s0 ns num_total "cs ! a" "cs ! b" original_gini]
    by (simp add: s0_def best_prefix_def)
  have kpos: "0 < length tups" using len lt by simp
  from best_prefix_char[OF kpos, of original_gini ns "cs ! a" "cs ! b" num_total tups]
  obtain idx where idx: "idx < length tups"
      "best_prefix original_gini ns (cs ! a) (cs ! b) num_total tups (length tups)
         = (Fin (?pg (Suc idx)), idx)"
      "\<forall>j < length tups. ?pg (Suc j) \<le> ?pg (Suc idx)"
    by blast
  have bi: "best_split_total_gini_gain s = Fin (?pg (Suc idx))" "best_last_left_index s = idx"
    using inv idx(2) by simp_all
  have pgG: "?pg j = ?G (set (take j svs)) (set (drop j svs))" if "j < length values_seen" for j
    unfolding tups_def vnr_def svs_def tot
    by (rule prefix_gain_partition[OF dist cons that])
  have sidx: "Suc idx < length values_seen" using idx(1) lt by simp
  have left: "left = set (take (Suc idx) svs)"
    by (simp add: r(2) bi(2) svs_def take_map)
  have right: "right = set (drop (Suc idx) svs)"
    unfolding r(3) left ssv[symmetric] by (rule distinct_take_drop_sets(1)[OF dsv])
  have p1: "left \<union> right = ?V" "left \<inter> right = {}"
    unfolding left right using distinct_take_drop_sets(2,3)[OF dsv, of "Suc idx"] ssv by auto
  have p2: "left \<noteq> {}" "right \<noteq> {}"
    unfolding left right using sidx lsv by auto
  have g: "gain = Fin (?G left right)"
    unfolding r(1) bi(1) left right using pgG[OF sidx] by simp
  have opt: "?G A B \<le> ?G left right"
    if AB: "A \<union> B = ?V" "A \<inter> B = {}" "A \<noteq> {}" "B \<noteq> {}" for A B
  proof -
    let ?nn = "\<lambda>v. real_of_int (ns ! v)" and ?bb = "\<lambda>v. real_of_int (ct ! v ! b)"
    have pos: "\<forall>v\<in>set svs. 0 < ?nn v" using cons ssv by auto
    have AB': "A \<union> B = set svs" using AB(1) ssv by simp
    have len': "2 \<le> length svs" using len lsv by simp
    from optimal_prefix_exists[OF dsv srt len' pos AB' AB(2,3,4)]
    obtain j where j: "0 < j" "j < length svs"
        "two_class_objective ?nn ?bb A B
           \<le> two_class_objective ?nn ?bb (set (take j svs)) (set (drop j svs))"
      by blast
    have ST: "set (take j svs) \<union> set (drop j svs) = ?V" "set (take j svs) \<inter> set (drop j svs) = {}"
      using distinct_take_drop_sets(2,3)[OF dsv, of j] ssv by auto
    have ne: "set (take j svs) \<noteq> {}" "set (drop j svs) \<noteq> {}" using j(1,2) by auto
    have fin: "finite ?V" by simp
    have Npos: "0 < (\<Sum>v\<in>?V. ?nn v)"
      using len cons by (intro sum_pos) auto
    have c: "0 \<le> 2 / (\<Sum>v\<in>?V. ?nn v)" using Npos by simp
    have "(2 / (\<Sum>v\<in>?V. ?nn v)) * ((\<Sum>v\<in>?V. ?bb v)
             - two_class_objective ?nn ?bb (set (take j svs)) (set (drop j svs)))
          \<le> (2 / (\<Sum>v\<in>?V. ?nn v)) * ((\<Sum>v\<in>?V. ?bb v) - two_class_objective ?nn ?bb A B)"
      using j(3) by (intro mult_left_mono[OF _ c]) simp
    then have "?G A B \<le> ?G (set (take j svs)) (set (drop j svs))"
      unfolding partition_gain_as_objective[OF fin cons AB]
                partition_gain_as_objective[OF fin cons ST ne]
      by linarith
    also have "\<dots> = ?pg j" using pgG[of j] j(2) lsv by simp
    also have "\<dots> \<le> ?pg (Suc idx)"
    proof -
      obtain j' where j': "j = Suc j'" using j(1) by (cases j) auto
      then have "j' < length tups" using j(2) lsv lt by simp
      then show ?thesis using idx(3) j' by simp
    qed
    also have "\<dots> = ?G left right" unfolding left right using pgG[OF sidx] .
    finally show ?thesis .
  qed
  show ?thesis using p1 p2 g opt by blast
qed


lemma three_values_trick:
  "two_class_trick (calculate_gini_index 12 [5, 7]) [5, 7] [0, 1, 2] [4, 4, 4]
     [[3, 1], [0, 4], [2, 2]] 12 = (Fin (25 / 144), {0, 2}, {1})"
  by code_simp

theorem two_class_trick_optimal_witness:
  "two_class_trick (calculate_gini_index 12 [5, 7]) [5, 7] [0, 1, 2] [4, 4, 4]
     [[3, 1], [0, 4], [2, 2]] 12 = (Fin (25 / 144), {0, 2}, {1})
   \<and> Fin (25 / 144) = Fin (partition_gini_gain (calculate_gini_index 12 [5, 7]) [4, 4, 4]
                               [[3, 1], [0, 4], [2, 2]] 0 1 {0, 2} {1})
   \<and> partition_gini_gain (calculate_gini_index 12 [5, 7]) [4, 4, 4]
         [[3, 1], [0, 4], [2, 2]] 0 1 {0} {1, 2}
       \<le> partition_gini_gain (calculate_gini_index 12 [5, 7]) [4, 4, 4]
           [[3, 1], [0, 4], [2, 2]] 0 1 {0, 2} {1}"
proof -
  let ?ns = "[4, 4, 4::int]" and ?ct = "[[3, 1], [0, 4], [2, 2::int]]"
  have d: "distinct [0, 1, 2::nat]" by simp
  have l: "2 \<le> length [0, 1, 2::nat]" by simp
  have c: "get_non_empty_class_indices [5, 7] = (Some 0, Some 1)" by code_simp
  have k: "\<forall>v\<in>set [0, 1, 2::nat]. 0 < ?ns ! v \<and> ?ns ! v = ?ct ! v ! 0 + ?ct ! v ! 1"
    by code_simp
  have t: "[5, 7::int] ! 0 = (\<Sum>v\<in>set [0, 1, 2::nat]. ?ct ! v ! 0)"
          "[5, 7::int] ! 1 = (\<Sum>v\<in>set [0, 1, 2::nat]. ?ct ! v ! 1)"
          "(12::int) = (\<Sum>v\<in>set [0, 1, 2::nat]. ?ns ! v)"
    by code_simp+
  note th = two_class_trick_optimal[OF d l c k t three_values_trick]
  have g: "Fin (25 / 144) = Fin (partition_gini_gain (calculate_gini_index 12 [5, 7]) ?ns ?ct
                               0 1 {0, 2} {1})"
    using th by blast
  have p: "{0::nat} \<union> {1, 2} = set [0, 1, 2] \<and> {0::nat} \<inter> {1, 2} = {} \<and> {0::nat} \<noteq> {}
           \<and> {1, 2::nat} \<noteq> {}" by auto
  have o: "partition_gini_gain (calculate_gini_index 12 [5, 7]) ?ns ?ct 0 1 {0} {1, 2}
       \<le> partition_gini_gain (calculate_gini_index 12 [5, 7]) ?ns ?ct 0 1 {0, 2} {1}"
    using th p by blast
  show ?thesis by (rule conjI[OF three_values_trick conjI[OF g o]])
qed

end
